theory Spec2Isabelle
  imports Complex_Main "HOL-Library.Char_ord" "HOL-Library.List_Lexorder"
begin

section \<open>Python values, errors and numpy indexing\<close>

text \<open>
  The functions of \<^verbatim>\<open>stlearn/tools/microenv/cci/het.py\<close> and
  \<^verbatim>\<open>stlearn/tools/microenv/cci/analysis.py\<close> are embedded as HOL functions.
  Spot barcodes are strings, spot indices are natural numbers (they come from
  \<^verbatim>\<open>np.where\<close> and from the stored neighbour lists), cell type proportions and
  scores are reals, and every exception the code can raise is a value of \<open>py_error\<close>
  on the left of a sum.
\<close>

datatype py_error =
  IndexError | KeyError | TypeError | ValueError | AttributeError | Exception string

definition bindE :: "py_error + 'a \<Rightarrow> ('a \<Rightarrow> py_error + 'b) \<Rightarrow> py_error + 'b" where
  "bindE m f = (case m of Inl e \<Rightarrow> Inl e | Inr v \<Rightarrow> f v)"

text \<open>\<^verbatim>\<open>xs[idx]\<close> with an integer index array: one element per index, IndexError when
  an index is out of range.\<close>

fun take_idx :: "'a list \<Rightarrow> nat list \<Rightarrow> py_error + 'a list" where
  "take_idx xs [] = Inr []"
| "take_idx xs (i # is) =
     (if i < length xs
      then bindE (take_idx xs is) (\<lambda>ys. Inr (xs ! i # ys))
      else Inl IndexError)"

text \<open>\<^verbatim>\<open>xs[msk]\<close> with a boolean mask: the elements at the True positions, in order;
  the mask must have the length of the array.\<close>

definition bool_index :: "'a list \<Rightarrow> bool list \<Rightarrow> py_error + 'a list" where
  "bool_index xs msk =
     (if length xs = length msk then Inr (map fst (filter snd (zip xs msk)))
      else Inl IndexError)"

text \<open>A two-dimensional numpy array of reals: \<open>ncols\<close> is \<^verbatim>\<open>shape[1]\<close>, and every row
  of a well-formed array has that length.\<close>

record ndarray =
  ncols :: nat
  rows :: "real list list"

definition wf_ndarray :: "ndarray \<Rightarrow> bool" where
  "wf_ndarray a = list_all (\<lambda>r. length r = ncols a) (rows a)"

text \<open>\<^verbatim>\<open>bools.sum()\<close>: the number of True entries.\<close>

definition sum_bool :: "bool list \<Rightarrow> nat" where
  "sum_bool bs = length (filter (\<lambda>b. b) bs)"

section \<open>het.py: get\_between\_spot\_edge\_array\<close>

text \<open>
  One pass of the first loop (lines 147 to 174): the barcodes of the neighbours of one
  spot that become edge ends. \<open>bcs\<close> is \<^verbatim>\<open>neighbourhood_bcs[i]\<close>, \<open>indices\<close> is
  \<^verbatim>\<open>neighbourhood_indices[i]\<close>. The \<^verbatim>\<open>continue\<close> of line 155 adds no edge, which
  is the empty list here.
\<close>

definition interact_neighs ::
  "bool list \<Rightarrow> bool \<Rightarrow> ndarray option \<Rightarrow> real \<Rightarrow> string \<times> string list \<Rightarrow> nat \<times> nat list
     \<Rightarrow> py_error + string list" where
  "interact_neighs neigh_bool count_cell_types cell_data cutoff bcs indices =
     (let neigh_bcs = snd bcs; neigh_indices = snd indices in
      bindE (take_idx neigh_bool neigh_indices) (\<lambda>msk.
      bindE (bool_index neigh_bcs msk) (\<lambda>neigh_bcs.
      bindE (bool_index neigh_indices msk) (\<lambda>neigh_indices.
        if length neigh_indices = 0 then Inr []
        else
          bindE
            (if count_cell_types then
               (case cell_data of
                  None \<Rightarrow> Inl TypeError
                | Some cd \<Rightarrow>
                    bindE (take_idx (rows cd) neigh_indices) (\<lambda>sel.
                      let interact_bool = map (map (\<lambda>v. v > cutoff)) sel;
                          interact_neigh_bool = map sum_bool interact_bool
                      in Inr (map (\<lambda>s. s = ncols cd) interact_neigh_bool)))
             else Inr (replicate (length neigh_indices) True))
            (\<lambda>interact_neigh_bool. bool_index neigh_bcs interact_neigh_bool)))))"

text \<open>The first loop: \<open>edge_starts\<close> and \<open>edge_ends\<close> grow together, one entry per
  interacting neighbour. \<^verbatim>\<open>neighbourhood_indices[i]\<close> is read for every
  \<^verbatim>\<open>i < len(neighbourhood_bcs)\<close>.\<close>

fun collect_edges ::
  "bool list \<Rightarrow> bool \<Rightarrow> ndarray option \<Rightarrow> real \<Rightarrow> (string \<times> string list) list
     \<Rightarrow> (nat \<times> nat list) list \<Rightarrow> string list \<times> string list
     \<Rightarrow> py_error + (string list \<times> string list)" where
  "collect_edges nb cct cd cutoff [] ixs acc = Inr acc"
| "collect_edges nb cct cd cutoff (b # bs) [] acc = Inl IndexError"
| "collect_edges nb cct cd cutoff (b # bs) (ix # ixs) acc =
     bindE (interact_neighs nb cct cd cutoff b ix) (\<lambda>interact_neigh_bcs.
       collect_edges nb cct cd cutoff bs ixs
         (fst acc @ replicate (length interact_neigh_bcs) (fst b),
          snd acc @ interact_neigh_bcs))"

text \<open>The test of lines 185 to 191 that marks edge \<open>j\<close> as already added.\<close>

definition same_edge :: "bool \<Rightarrow> string \<times> string \<Rightarrow> string \<times> string \<Rightarrow> bool" where
  "same_edge undirected e ej =
     (if undirected
      then (fst e = fst ej \<and> snd e = snd ej) \<or> (snd e = fst ej \<and> fst e = snd ej)
      else fst e = fst ej \<and> snd e = snd ej)"

text \<open>The inner loop \<^verbatim>\<open>for j in range(i, n_edges)\<close>.\<close>

definition mark_added ::
  "bool \<Rightarrow> string list \<Rightarrow> string list \<Rightarrow> nat \<Rightarrow> bool list \<Rightarrow> bool list" where
  "mark_added undirected edge_starts edge_ends i edge_added =
     fold (\<lambda>j added.
             if same_edge undirected (edge_starts ! i, edge_ends ! i)
                  (edge_starts ! j, edge_ends ! j)
             then added[j := True] else added)
       [i ..< length edge_starts] edge_added"

text \<open>The outer loop \<^verbatim>\<open>for i in range(n_edges)\<close> over the state
  \<open>(edge_added, edge_list_unique)\<close>.\<close>

definition unique_step ::
  "bool \<Rightarrow> string list \<Rightarrow> string list \<Rightarrow> nat \<Rightarrow> bool list \<times> (string \<times> string) list
     \<Rightarrow> bool list \<times> (string \<times> string) list" where
  "unique_step undirected edge_starts edge_ends i st =
     (if \<not> fst st ! i
      then (mark_added undirected edge_starts edge_ends i (fst st),
            snd st @ [(edge_starts ! i, edge_ends ! i)])
      else st)"

definition unique_edges ::
  "bool \<Rightarrow> string list \<Rightarrow> string list \<Rightarrow> (string \<times> string) list" where
  "unique_edges undirected edge_starts edge_ends =
     snd (fold (unique_step undirected edge_starts edge_ends)
            [0 ..< length edge_starts]
            (replicate (length edge_starts) False, []))"

definition get_between_spot_edge_array ::
  "(string \<times> string list) list \<Rightarrow> (nat \<times> nat list) list \<Rightarrow> bool list \<Rightarrow> bool
     \<Rightarrow> ndarray option \<Rightarrow> real \<Rightarrow> bool \<Rightarrow> py_error + (string \<times> string) list" where
  "get_between_spot_edge_array neighbourhood_bcs neighbourhood_indices neigh_bool
       count_cell_types cell_data cutoff undirected =
     bindE (collect_edges neigh_bool count_cell_types cell_data cutoff
              neighbourhood_bcs neighbourhood_indices ([], []))
       (\<lambda>(edge_starts, edge_ends). Inr (unique_edges undirected edge_starts edge_ends))"

text \<open>het.py, get\_edges, lines 122 to 128: the directed duplicate removal over the
  collected edges.\<close>

definition remove_duplicates :: "(string \<times> string) list \<Rightarrow> (string \<times> string) list" where
  "remove_duplicates all_edges =
     fold (\<lambda>edge all_edges_unique.
             if edge \<notin> set all_edges_unique then all_edges_unique @ [edge]
             else all_edges_unique)
       all_edges []"

section \<open>The AnnData object\<close>

text \<open>
  A pandas DataFrame: row labels, column names and the rows of values. A column of
  \<^verbatim>\<open>adata.obs\<close> is either numeric (the image coordinates) or categorical (cell type
  labels), and is aligned with \<^verbatim>\<open>adata.obs_names\<close>, whose barcodes are taken to be
  unique, so that \<^verbatim>\<open>.loc[spot]\<close> on it is the entry at the spot's position.
\<close>

record 'a dataframe =
  df_index :: "string list"
  df_columns :: "string list"
  df_values :: "'a list list"

datatype obs_column = NumCol "real list" | StrCol "string list"

text \<open>One entry of \<^verbatim>\<open>adata.uns["spatial"]\<close>: the keys \<^verbatim>\<open>"scalefactors"\<close> and
  \<^verbatim>\<open>"use_quality"\<close>, each of which may be missing.\<close>

record library =
  scalefactors :: "(string \<rightharpoonup> real) option"
  use_quality :: "string option"

datatype uns_value =
    Spatial "(string \<times> library) list"
  | Frame "real dataframe"
  | IntFrame "int dataframe"
  | IntFrameDict "string \<rightharpoonup> int dataframe"
  | RealFrameDict "string \<rightharpoonup> real dataframe"

datatype obsm_value =
    StrFrame "string dataframe"
  | HetCounts "nat list"
  | Scores "real list list"

record anndata =
  obs_names :: "string list"
  var_names :: "string list"
  X :: "real list list"
  obs :: "string \<rightharpoonup> obs_column"
  uns :: "string \<rightharpoonup> uns_value"
  obsm :: "string \<rightharpoonup> obsm_value"

text \<open>Running a fallible function over a list, stopping at the first exception.\<close>

fun mapE :: "('a \<Rightarrow> py_error + 'b) \<Rightarrow> 'a list \<Rightarrow> py_error + 'b list" where
  "mapE f [] = Inr []"
| "mapE f (x # xs) = bindE (f x) (\<lambda>y. bindE (mapE f xs) (\<lambda>ys. Inr (y # ys)))"

text \<open>Position of a label in an index or a column list; KeyError when it is absent.\<close>

fun position :: "string list \<Rightarrow> string \<Rightarrow> py_error + nat" where
  "position [] l = Inl KeyError"
| "position (x # xs) l =
     (if x = l then Inr 0 else bindE (position xs l) (\<lambda>k. Inr (Suc k)))"

text \<open>\<^verbatim>\<open>df.loc[labels]\<close>: the rows with the given labels.\<close>

definition loc_rows :: "'a dataframe \<Rightarrow> string list \<Rightarrow> py_error + 'a list list" where
  "loc_rows df labels =
     bindE (mapE (position (df_index df)) labels) (take_idx (df_values df))"

text \<open>\<^verbatim>\<open>df.loc[:, labels].values\<close>: the columns with the given names, as an array.\<close>

definition loc_columns :: "real dataframe \<Rightarrow> string list \<Rightarrow> py_error + ndarray" where
  "loc_columns df labels =
     bindE (mapE (position (df_columns df)) labels) (\<lambda>cs.
     bindE (mapE (\<lambda>row. take_idx row cs) (df_values df)) (\<lambda>rs.
       Inr \<lparr>ncols = length labels, rows = rs\<rparr>))"

text \<open>\<^verbatim>\<open>adata.uns[key]\<close> read as a DataFrame of proportions. A key of \<open>None\<close> is the
  omitted \<^verbatim>\<open>use_label\<close>, which is no key of the dictionary.\<close>

definition get_frame :: "anndata \<Rightarrow> string option \<Rightarrow> py_error + real dataframe" where
  "get_frame adata key =
     (case key of
        None \<Rightarrow> Inl KeyError
      | Some k \<Rightarrow>
          (case uns adata k of
             None \<Rightarrow> Inl KeyError
           | Some (Frame df) \<Rightarrow> Inr df
           | Some _ \<Rightarrow> Inl AttributeError))"

section \<open>het.py: count\<close>

text \<open>
  \<^verbatim>\<open>cKDTree.query_ball_point(x, r)\<close> of scipy, an external library: the indices of the
  points whose Euclidean distance to \<open>x\<close> is at most \<open>r\<close>. The order scipy returns them
  in is not fixed; ascending order is used here, and \<open>count\<close> does not depend on it.
\<close>

definition query_ball_point :: "(real \<times> real) list \<Rightarrow> real \<times> real \<Rightarrow> real \<Rightarrow> nat list" where
  "query_ball_point pts x r =
     filter (\<lambda>i. 0 \<le> r \<and> (fst (pts ! i) - fst x)\<^sup>2 + (snd (pts ! i) - snd x)\<^sup>2 \<le> r\<^sup>2)
       [0 ..< length pts]"

text \<open>Line 28: the first key of \<^verbatim>\<open>adata.uns["spatial"]\<close>, with its entry.\<close>

definition first_library :: "anndata \<Rightarrow> py_error + (string \<times> library)" where
  "first_library adata =
     (case uns adata ''spatial'' of
        None \<Rightarrow> Inl KeyError
      | Some (Spatial []) \<Rightarrow> Inl IndexError
      | Some (Spatial (l # ls)) \<Rightarrow> Inr l
      | Some _ \<Rightarrow> Inl AttributeError)"

text \<open>Lines 34 to 43: the neighbour distance when none is given.\<close>

definition default_distance :: "library \<Rightarrow> py_error + real" where
  "default_distance lib =
     (case scalefactors lib of
        None \<Rightarrow> Inl KeyError
      | Some sf \<Rightarrow>
          (case sf ''spot_diameter_fullres'' of
             None \<Rightarrow> Inl KeyError
           | Some diameter \<Rightarrow>
               (case use_quality lib of
                  None \<Rightarrow> Inl KeyError
                | Some q \<Rightarrow>
                    (case sf (''tissue_'' @ q @ ''_scalef'') of
                       None \<Rightarrow> Inl KeyError
                     | Some scalef \<Rightarrow> Inr (diameter * scalef * 2)))))"

text \<open>\<^verbatim>\<open>adata.obs[["imagerow", "imagecol"]]\<close>: the coordinates of the spots.\<close>

definition coor :: "anndata \<Rightarrow> py_error + (real \<times> real) list" where
  "coor adata =
     (case (obs adata ''imagerow'', obs adata ''imagecol'') of
        (Some (NumCol r), Some (NumCol c)) \<Rightarrow> Inr (zip r c)
      | _ \<Rightarrow> Inl KeyError)"

text \<open>Lines 52 to 58: the barcodes \<open>neighbours\<close> of the spot at position \<open>k\<close>.\<close>

definition count_neighbours ::
  "anndata \<Rightarrow> (real \<times> real) list \<Rightarrow> real \<Rightarrow> nat \<Rightarrow> py_error + string list" where
  "count_neighbours adata pts distance k =
     (if k < length pts
      then take_idx (obs_names adata) (query_ball_point pts (pts ! k) distance)
      else Inl KeyError)"

text \<open>Lines 59 to 61: the number of cell types whose proportion exceeds 0.2 in at least
  one of the neighbours.\<close>

definition count_cell_types_in :: "real dataframe \<Rightarrow> string list \<Rightarrow> py_error + nat" where
  "count_cell_types_in df neighbours =
     bindE (loc_rows df neighbours) (\<lambda>sub.
       Inr (length (filter (\<lambda>c. list_ex (\<lambda>row. row ! c > 2 / 10) sub)
                      [0 ..< length (df_columns df)])))"

text \<open>Lines 45 to 62, with the distance already settled.\<close>

definition count_between ::
  "anndata \<Rightarrow> string option \<Rightarrow> string \<Rightarrow> real \<Rightarrow> py_error + anndata" where
  "count_between adata use_label use_het distance =
     bindE (coor adata) (\<lambda>pts.
     bindE (mapE (\<lambda>k.
              bindE (count_neighbours adata pts distance k) (\<lambda>neighbours.
              bindE (get_frame adata use_label) (\<lambda>df.
                count_cell_types_in df neighbours)))
            [0 ..< length (obs_names adata)]) (\<lambda>counts_ct.
       Inr (adata\<lparr>obsm := (obsm adata)(use_het \<mapsto> HetCounts counts_ct)\<rparr>)))"

text \<open>Line 67: the number of cell types with proportion above 0.2 within each spot.\<close>

definition count_within :: "anndata \<Rightarrow> string option \<Rightarrow> string \<Rightarrow> py_error + anndata" where
  "count_within adata use_label use_het =
     bindE (get_frame adata use_label) (\<lambda>df.
       Inr (adata\<lparr>obsm := (obsm adata)(use_het \<mapsto>
              HetCounts (map (\<lambda>row. sum_bool (map (\<lambda>v. v > 2 / 10) row)) (df_values df)))\<rparr>))"

text \<open>Lines 30 to 43: the radius of the range query. \<open>None\<close> is the omitted distance.\<close>

definition count_distance :: "library \<Rightarrow> real option \<Rightarrow> py_error + real" where
  "count_distance lib distance =
     (case distance of None \<Rightarrow> default_distance lib | Some d \<Rightarrow> Inr d)"

definition count_message :: "string \<Rightarrow> string" where
  "count_message use_het =
     ''Counts for cluster (cell type) diversity stored into adata.uns['' @ [CHR 0x27]
       @ use_het @ [CHR 0x27] @ '']''"

text \<open>\<open>count\<close> returns the updated object and the lines it printed.\<close>

definition count ::
  "anndata \<Rightarrow> string option \<Rightarrow> string \<Rightarrow> bool \<Rightarrow> real option
     \<Rightarrow> py_error + (anndata \<times> string list)" where
  "count adata use_label use_het verbose distance =
     bindE (first_library adata) (\<lambda>(library_id, lib).
     bindE
       (if distance \<noteq> Some 0 then
          bindE (count_distance lib distance) (\<lambda>d.
            count_between adata use_label use_het d)
        else count_within adata use_label use_het)
       (\<lambda>adata'. Inr (adata', if verbose then [count_message use_het] else [])))"

section \<open>het.py: create\_grids\<close>

text \<open>
  Lines 403 to 422 for grid \<open>n\<close>. The array \<open>a\<close> of line 405 has \<open>num_row\<close> rows and
  \<open>num_col\<close> columns with \<open>a[i][j] = j * num_row + i\<close>. \<^verbatim>\<open>list(set(...))\<close> removes the
  duplicates; the order Python iterates the set in is not fixed, the order of first
  occurrence is used here.
\<close>

definition nb_matrix :: "int \<Rightarrow> int \<Rightarrow> int \<Rightarrow> int \<Rightarrow> int list list" where
  "nb_matrix num_row num_col radius n =
     (let row = n mod num_row; col = n div num_row in
      map (\<lambda>i. map (\<lambda>j. if 0 \<le> i \<and> i < num_row \<and> 0 \<le> j \<and> j < num_col
                        then j * num_row + i else - 1)
                  [col - radius .. col + radius])
        [row - radius .. row + radius])"

definition grid_neighbours :: "int \<Rightarrow> int \<Rightarrow> int \<Rightarrow> int \<Rightarrow> int list" where
  "grid_neighbours num_row num_col radius n =
     (let neighbour = remdups (concat (nb_matrix num_row num_col radius n)) in
      filter (\<lambda>grid. \<not> (grid = n \<and> radius > 0) \<and> grid \<noteq> - 1) neighbour)"

text \<open>The grids with their neighbours. \<open>max\<close> and \<open>min\<close> of the coordinates raise
  ValueError when there is no spot; the width and the height are not finite numbers
  when a count is zero, which is \<open>None\<close> here; \<^verbatim>\<open>reshape\<close> raises ValueError on negative
  counts.\<close>

record grids_result =
  grids :: "(real \<times> real) list"
  width :: "real option"
  height :: "real option"
  neighbours :: "int list list"

definition create_grids :: "anndata \<Rightarrow> int \<Rightarrow> int \<Rightarrow> int \<Rightarrow> py_error + grids_result" where
  "create_grids adata num_row num_col radius =
     bindE (coor adata) (\<lambda>pts.
       if pts = [] then Inl ValueError
       else
         let max_x = Max (set (map snd pts)); min_x = Min (set (map snd pts));
             max_y = Max (set (map fst pts)); min_y = Min (set (map fst pts));
             w = (max_x - min_x) / real_of_int num_col;
             h = (max_y - min_y) / real_of_int num_row;
             ns = [0 .. num_row * num_col - 1]
         in if ns \<noteq> [] \<and> (num_row < 0 \<or> num_col < 0) then Inl ValueError
            else Inr \<lparr>grids = map (\<lambda>n. (min_x + real_of_int (n div num_row) * w,
                                         min_y + real_of_int (n mod num_row) * h)) ns,
                      width = (if num_col = 0 then None else Some w),
                      height = (if num_row = 0 then None else Some h),
                      neighbours = map (grid_neighbours num_row num_col radius) ns\<rparr>)"

section \<open>het.py: count\_core\<close>

text \<open>An entry of the returned edge list: the between-spot paths return pairs of
  barcodes, the within-spot path returns single barcodes.\<close>

datatype edge_item = SpotItem string | PairItem "string \<times> string"

datatype count_result = Edges "edge_item list" | Count nat

text \<open>Lines 215 to 218.\<close>

definition label_keys :: "string \<Rightarrow> string \<times> string" where
  "label_keys use_label =
     (if use_label = ''label_transfer'' \<or> use_label = ''predictions''
      then (''predictions'', ''label_transfer'') else (use_label, use_label))"

text \<open>\<^verbatim>\<open>adata.obs[key].values\<close> for a column of labels.\<close>

definition obs_labels :: "anndata \<Rightarrow> string \<Rightarrow> py_error + string list" where
  "obs_labels adata key =
     (case obs adata key of
        None \<Rightarrow> Inl KeyError
      | Some (StrCol ls) \<Rightarrow> Inr ls
      | Some (NumCol xs) \<Rightarrow> Inl TypeError)"

text \<open>\<^verbatim>\<open>np.unique\<close>: the sorted distinct values.\<close>

definition np_unique :: "string list \<Rightarrow> string list" where
  "np_unique xs = sort (remdups xs)"

text \<open>Lines 237 to 243: the neighbourhood of every enumerated spot, as barcodes and as
  indices.\<close>

definition neighbourhoods ::
  "anndata \<Rightarrow> nat list list \<Rightarrow> nat list
     \<Rightarrow> py_error + ((string \<times> string list) list \<times> (nat \<times> nat list) list)" where
  "neighbourhoods adata neighs spot_indices =
     bindE (mapE (\<lambda>spot_i.
              if spot_i < length neighs \<and> spot_i < length (obs_names adata)
              then bindE (take_idx (obs_names adata) (neighs ! spot_i)) (\<lambda>bcs.
                     Inr ((obs_names adata ! spot_i, bcs), (spot_i, neighs ! spot_i)))
              else Inl IndexError)
            spot_indices)
       (\<lambda>both. Inr (map fst both, map snd both))"

text \<open>The test of lines 256 and 257.\<close>

definition within_spot :: "(nat \<times> nat list) list \<Rightarrow> bool" where
  "within_spot neighbourhood_indices =
     list_all (\<lambda>(spot_i, neighs). spot_i \<in> set neighs) neighbourhood_indices"

text \<open>Lines 262 and 263: \<^verbatim>\<open>sig_spot_bool[spot_indices] = True\<close>.\<close>

definition set_true :: "nat \<Rightarrow> nat list \<Rightarrow> py_error + bool list" where
  "set_true n spot_indices =
     (if list_all (\<lambda>i. i < n) spot_indices
      then Inr (fold (\<lambda>i bs. bs[i := True]) spot_indices (replicate n False))
      else Inl IndexError)"

text \<open>Lines 262 to 270: the within-spot rule.\<close>

definition within_spot_edges ::
  "anndata \<Rightarrow> string \<Rightarrow> nat list \<Rightarrow> bool list \<Rightarrow> string list \<Rightarrow> real
     \<Rightarrow> py_error + edge_item list" where
  "within_spot_edges adata uns_key spot_indices neigh_bool label_set cutoff =
     bindE (set_true (length neigh_bool) spot_indices) (\<lambda>sig_spot_bool.
     let spots = map (\<lambda>(a, b). a \<and> b) (zip sig_spot_bool neigh_bool) in
     bindE (get_frame adata (Some uns_key)) (\<lambda>df.
     bindE (loc_columns df label_set) (\<lambda>props.
     bindE (bool_index (rows props) spots) (\<lambda>sel.
     let counts = map (\<lambda>row. sum_bool (map (\<lambda>v. v > cutoff) row)) sel;
         interact_indices = filter (\<lambda>i. counts ! i > 0) [0 ..< length counts]
     in bindE (take_idx (obs_names adata) interact_indices) (\<lambda>bcs.
          Inr (map SpotItem bcs))))))"

text \<open>Lines 286 to 289: the 0/1 membership array of the absolute mode.\<close>

definition label_indicator :: "string list \<Rightarrow> string list \<Rightarrow> ndarray" where
  "label_indicator cell_types label_set =
     \<lparr>ncols = length label_set,
      rows = map (\<lambda>ct. map (\<lambda>cell_type. if ct = cell_type then 1 else 0) label_set)
               cell_types\<rparr>"

text \<open>
  \<open>count_core\<close>. \<open>None\<close> stands for an argument left at its default of \<^verbatim>\<open>None\<close>.
  \<^verbatim>\<open>len(spot_indices)\<close> of line 221 is evaluated before the default of line 233 is
  filled in, and raises TypeError on \<^verbatim>\<open>None\<close>. The calls of
  \<open>get_between_spot_edge_array\<close> leave \<open>undirected\<close> at its default \<open>True\<close>, and the
  absolute mode leaves \<open>cutoff\<close> at its default \<open>0\<close>.
\<close>

definition count_core ::
  "anndata \<Rightarrow> string \<Rightarrow> nat list list \<Rightarrow> nat list option \<Rightarrow> bool list option
     \<Rightarrow> string list option \<Rightarrow> bool \<Rightarrow> real \<Rightarrow> bool \<Rightarrow> py_error + count_result" where
  "count_core adata use_label neighs spot_indices neigh_bool label_set spot_mixtures cutoff
       return_edges =
     (let obs_key = fst (label_keys use_label); uns_key = snd (label_keys use_label) in
      case spot_indices of
        None \<Rightarrow> Inl TypeError
      | Some spot_indices \<Rightarrow>
          if length spot_indices = 0 then Inr (if return_edges then Edges [] else Count 0)
          else
            bindE (case label_set of
                     None \<Rightarrow> bindE (obs_labels adata obs_key) (\<lambda>ls. Inr (np_unique ls))
                   | Some ls \<Rightarrow> Inr ls) (\<lambda>label_set.
            let neigh_bool = (case neigh_bool of
                                None \<Rightarrow> replicate (length (obs_names adata)) True
                              | Some nb \<Rightarrow> nb) in
            bindE (neighbourhoods adata neighs spot_indices)
              (\<lambda>(neighbourhood_bcs, neighbourhood_indices).
            bindE
              (if spot_mixtures \<and> uns adata uns_key \<noteq> None then
                 (if within_spot neighbourhood_indices
                  then within_spot_edges adata uns_key spot_indices neigh_bool label_set
                         cutoff
                  else
                    bindE (get_frame adata (Some uns_key)) (\<lambda>df.
                    bindE (loc_columns df label_set) (\<lambda>prop_vals.
                    bindE (get_between_spot_edge_array neighbourhood_bcs
                             neighbourhood_indices neigh_bool True (Some prop_vals) cutoff
                             True)
                      (\<lambda>es. Inr (map PairItem es)))))
               else
                 bindE (obs_labels adata obs_key) (\<lambda>cell_types.
                 bindE (get_between_spot_edge_array neighbourhood_bcs
                          neighbourhood_indices neigh_bool True
                          (Some (label_indicator cell_types label_set)) 0 True)
                   (\<lambda>es. Inr (map PairItem es))))
              (\<lambda>edge_list.
                 Inr (if return_edges then Edges edge_list
                      else Count (length edge_list))))))"

section \<open>analysis.py: run\<close>

text \<open>Decimal digits of a number, \<^verbatim>\<open>str(n)\<close>, and \<^verbatim>\<open>','.join(...)\<close>.\<close>

function str_of_nat :: "nat \<Rightarrow> string" where
  "str_of_nat n =
     (if n < 10 then [char_of (48 + n)]
      else str_of_nat (n div 10) @ [char_of (48 + n mod 10)])"
  by pat_completeness auto
termination
  by (relation "measure (\<lambda>n. n)") auto

declare str_of_nat.simps [simp del]

fun join_comma :: "string list \<Rightarrow> string" where
  "join_comma [] = []"
| "join_comma [x] = x"
| "join_comma (x # y # ys) = x @ '','' @ join_comma (y # ys)"

text \<open>
  The functions \<^verbatim>\<open>calc_distance\<close>, \<^verbatim>\<open>calc_neighbours\<close> and \<^verbatim>\<open>get_lrs_scores\<close> of
  base.py and \<^verbatim>\<open>perform_spot_testing\<close> of permutation.py are not among the sources at
  hand: they are parameters of \<open>run\<close>. The first three compute a value from the dataset
  (the specification describes the neighbour index and the scorer as functions of their
  inputs); \<^verbatim>\<open>perform_spot_testing\<close> stores its results and so returns the dataset. What
  these functions print is left out of the printed lines. \<^verbatim>\<open>numba.set_num_threads\<close>
  changes no value and is left out with its argument \<^verbatim>\<open>n_cpus\<close>.
\<close>

record run_env =
  calc_distance :: "anndata \<Rightarrow> real option \<Rightarrow> py_error + real"
  calc_neighbours :: "anndata \<Rightarrow> real \<Rightarrow> bool \<Rightarrow> py_error + nat list list"
  get_lrs_scores ::
    "anndata \<Rightarrow> string list \<Rightarrow> nat list list \<Rightarrow> obsm_value \<Rightarrow> real
       \<Rightarrow> py_error + (ndarray \<times> string list)"
  perform_spot_testing ::
    "anndata \<Rightarrow> ndarray \<Rightarrow> string list \<Rightarrow> nat \<Rightarrow> nat list list \<Rightarrow> obsm_value \<Rightarrow> real
       \<Rightarrow> string \<Rightarrow> real \<Rightarrow> bool \<Rightarrow> bool \<Rightarrow> py_error + anndata"

text \<open>Lines 50 to 52: the DataFrame of the neighbour indices, one string per spot.\<close>

definition spot_neighbours_frame ::
  "string list \<Rightarrow> nat list list \<Rightarrow> py_error + string dataframe" where
  "spot_neighbours_frame names neighs =
     (if length neighs = length names
      then Inr \<lparr>df_index = names, df_columns = [''neighbour_indices''],
                df_values = map (\<lambda>x. [join_comma (map str_of_nat x)]) neighs\<rparr>
      else Inl ValueError)"

text \<open>Line 72: one flag per LR pair (per column of the scores).\<close>

definition lr_bool :: "ndarray \<Rightarrow> int \<Rightarrow> bool list" where
  "lr_bool lr_scores min_spots =
     map (\<lambda>c. int (sum_bool (map (\<lambda>row. row ! c > 0) (rows lr_scores))) > min_spots)
       [0 ..< ncols lr_scores]"

text \<open>Lines 72 to 74: the pairs and the columns that are kept.\<close>

definition filter_lrs ::
  "ndarray \<Rightarrow> string list \<Rightarrow> int \<Rightarrow> py_error + (string list \<times> ndarray)" where
  "filter_lrs lr_scores lrs min_spots =
     (let keep = lr_bool lr_scores min_spots in
      bindE (bool_index lrs keep) (\<lambda>lrs'.
      bindE (mapE (\<lambda>row. bool_index row keep) (rows lr_scores)) (\<lambda>rows'.
        Inr (lrs', \<lparr>ncols = sum_bool keep, rows = rows'\<rparr>))))"

definition stored_message :: string where
  "stored_message =
     ''Spot neighbour indices stored in adata.obsm['' @ [CHR 0x27] @ ''spot_neighbours''
       @ [CHR 0x27] @ '']''"

text \<open>Lines 48 to 66: the neighbours are computed and stored, the cell heterogeneity is
  counted when label data is present. The result is the dataset, the lines printed, the
  neighbours and \<open>het_vals\<close>.\<close>

definition run_setup ::
  "run_env \<Rightarrow> anndata \<Rightarrow> string option \<Rightarrow> string \<Rightarrow> real option \<Rightarrow> bool
     \<Rightarrow> py_error + (anndata \<times> string list \<times> nat list list \<times> obsm_value)" where
  "run_setup env adata use_label use_het distance verbose =
     bindE (calc_distance env adata distance) (\<lambda>distance.
     bindE (calc_neighbours env adata distance verbose) (\<lambda>neighs.
     bindE (spot_neighbours_frame (obs_names adata) neighs) (\<lambda>df.
     let adata1 = adata\<lparr>obsm := (obsm adata)(''spot_neighbours'' \<mapsto> StrFrame df)\<rparr>;
         out1 = (if verbose then [stored_message] else []);
         cell_het = (case use_label of None \<Rightarrow> False | Some l \<Rightarrow> uns adata1 l \<noteq> None)
     in
     bindE (if cell_het
            then bindE (count adata1 use_label use_het True (Some distance))
                   (\<lambda>(adata2, msgs).
                      Inr (adata2,
                           out1 @ (if verbose then [''Calculating cell hetereogeneity...'']
                                   else []) @ msgs))
            else Inr (adata1, out1)) (\<lambda>(adata2, out2).
       Inr (adata2, out2, neighs,
            (case obsm adata2 use_het of
               None \<Rightarrow> HetCounts (replicate (length (obs_names adata2)) 1)
             | Some v \<Rightarrow> v))))))"

text \<open>\<open>run\<close> returns the dataset as the call leaves it and the lines it printed.\<close>

definition run ::
  "run_env \<Rightarrow> anndata \<Rightarrow> string list \<Rightarrow> string option \<Rightarrow> string \<Rightarrow> real option \<Rightarrow> nat
     \<Rightarrow> string \<Rightarrow> real \<Rightarrow> int \<Rightarrow> real \<Rightarrow> bool \<Rightarrow> bool \<Rightarrow> py_error + (anndata \<times> string list)"
  where
  "run env adata lrs use_label use_het distance n_pairs adj_method pval_adj_cutoff min_spots
       min_expr save_bg verbose =
     bindE (run_setup env adata use_label use_het distance verbose)
       (\<lambda>(adata2, out2, neighs, het_vals).
     bindE (get_lrs_scores env adata2 lrs neighs het_vals min_expr) (\<lambda>(lr_scores, lrs1).
     bindE (filter_lrs lr_scores lrs1 min_spots) (\<lambda>(lrs2, lr_scores2).
     let out3 = out2 @ (if verbose
                        then [''Altogether '' @ str_of_nat (length lrs2) @ '' valid L-R pairs'']
                        else [])
     in
     if length lrs2 = 0 then Inr (adata2, out3 @ [''Exiting due to lack of valid LR pairs.''])
     else
       bindE (perform_spot_testing env adata2 lr_scores2 lrs2 n_pairs neighs het_vals
                min_expr adj_method pval_adj_cutoff verbose save_bg)
         (\<lambda>adata3. Inr (adata3, out3)))))"

section \<open>analysis.py: run\_cci\<close>















text \<open>The state of the loop of lines 178 to 205.\<close>

record 'g cci_state =
  all_matrix :: "int list list"
  raw_matrix :: "int list list"
  per_lr_cci :: "string \<rightharpoonup> int dataframe"
  per_lr_cci_pvals :: "string \<rightharpoonup> real dataframe"
  per_lr_cci_raw :: "string \<rightharpoonup> int dataframe"
  rng :: 'g







section \<open>A small dataset\<close>

text \<open>Two spots \<open>A\<close> and \<open>B\<close> one pixel apart, one cell type \<open>T\<close> with proportion one
  tenth in \<open>A\<close> and one half in \<open>B\<close>, and the genes \<open>L\<close> and \<open>R\<close>. The spot diameter is 1
  and the scale factor one half, so that the default neighbour distance is 1. It serves as
  the concrete input of the examples below.\<close>

definition example_adata :: anndata where
  "example_adata =
     \<lparr>obs_names = [''A'', ''B''],
      var_names = [''L'', ''R''],
      X = [[1, 1], [1, 1]],
      obs = [''imagerow'' \<mapsto> NumCol [0, 0], ''imagecol'' \<mapsto> NumCol [0, 1],
             ''cell_type'' \<mapsto> StrCol [''T'', ''T'']],
      uns = [''spatial'' \<mapsto>
               Spatial [(''lib'',
                         \<lparr>scalefactors = Some [''spot_diameter_fullres'' \<mapsto> 1,
                                                 ''tissue_hires_scalef'' \<mapsto> 1 / 2],
                          use_quality = Some ''hires''\<rparr>)],
             ''cell_type'' \<mapsto>
               Frame \<lparr>df_index = [''A'', ''B''], df_columns = [''T''],
                      df_values = [[1 / 10], [1 / 2]]\<rparr>],
      obsm = Map.empty\<rparr>"

text \<open>Stand-ins for the functions of base.py and permutation.py on this dataset: the
  two spots are neighbours of each other, and every LR pair scores zero in both spots.\<close>

definition example_env :: run_env where
  "example_env =
     \<lparr>calc_distance = (\<lambda>adata distance. Inr 1),
      calc_neighbours = (\<lambda>adata distance verbose. Inr [[1], [0]]),
      get_lrs_scores = (\<lambda>adata lrs neighs het_vals min_expr.
         Inr (\<lparr>ncols = length lrs, rows = replicate 2 (replicate (length lrs) 0)\<rparr>, lrs)),
      perform_spot_testing = (\<lambda>adata lr_scores lrs n_pairs neighs het_vals min_expr adj_method
         pval_adj_cutoff verbose save_bg. Inr adata)\<rparr>"




section \<open>Properties of the edge enumeration\<close>

subsection \<open>The unique edge list\<close>

lemma same_edge_refl: "same_edge u e e"
  by (simp add: same_edge_def)

lemma same_edge_sym: "same_edge u a b \<Longrightarrow> same_edge u b a"
  by (auto simp: same_edge_def split: if_splits)

lemma same_edge_trans: "same_edge u a b \<Longrightarrow> same_edge u b c \<Longrightarrow> same_edge u a c"
  by (auto simp: same_edge_def split: if_splits)

lemma mark_fold_length:
  "length (fold (\<lambda>j added. if P j then added[j := True] else added) js added) = length added"
  by (induction js arbitrary: added) auto

lemma mark_fold_nth:
  "m \<le> length added \<Longrightarrow> j < length added \<Longrightarrow>
   fold (\<lambda>j added. if P j then added[j := True] else added) [i ..< m] added ! j
     = (added ! j \<or> (i \<le> j \<and> j < m \<and> P j))"
proof (induction m)
  case 0
  then show ?case by simp
next
  case (Suc m)
  show ?case
  proof (cases "i \<le> m")
    case True
    then have "[i ..< Suc m] = [i ..< m] @ [m]" by simp
    with Suc show ?thesis
      by (auto simp: mark_fold_length nth_list_update less_Suc_eq)
  next
    case False
    then have "m < i" by simp
    then show ?thesis by auto
  qed
qed

lemma mark_added_length:
  "length (mark_added u s e i added) = length added"
  by (simp add: mark_added_def mark_fold_length)

lemma mark_added_nth:
  "length added = length s \<Longrightarrow> j < length s \<Longrightarrow>
   mark_added u s e i added ! j
     = (added ! j \<or> (i \<le> j \<and> same_edge u (s ! i, e ! i) (s ! j, e ! j)))"
  unfolding mark_added_def
  by (subst mark_fold_nth) auto

lemma unique_fold_inv:
  "k \<le> length s \<Longrightarrow>
   fold (unique_step u s e) [0 ..< k] (replicate (length s) False, []) = (added, uniq) \<Longrightarrow>
   length added = length s \<and>
   (\<forall>j<length s. added ! j = (\<exists>i<k. i \<le> j \<and> same_edge u (s ! i, e ! i) (s ! j, e ! j))) \<and>
   uniq = map (\<lambda>i. (s ! i, e ! i)) (filter (\<lambda>i. \<forall>j<i. \<not> same_edge u (s ! j, e ! j) (s ! i, e ! i)) [0 ..< k])"
proof (induction k arbitrary: added uniq)
  case 0
  then show ?case by auto
next
  case (Suc k)
  obtain added0 uniq0 where st:
    "fold (unique_step u s e) [0 ..< k] (replicate (length s) False, []) = (added0, uniq0)"
    by (cases "fold (unique_step u s e) [0 ..< k] (replicate (length s) False, [])") auto
  from Suc.prems have kl: "k < length s" by simp
  from Suc.IH[OF _ st] kl have
    len: "length added0 = length s" and
    mk: "\<And>j. j < length s \<Longrightarrow> added0 ! j = (\<exists>i<k. i \<le> j \<and> same_edge u (s ! i, e ! i) (s ! j, e ! j))" and
    un: "uniq0 = map (\<lambda>i. (s ! i, e ! i)) (filter (\<lambda>i. \<forall>j<i. \<not> same_edge u (s ! j, e ! j) (s ! i, e ! i)) [0 ..< k])"
    by auto
  from Suc.prems(2) st have step: "unique_step u s e k (added0, uniq0) = (added, uniq)"
    by simp
  have fo: "(\<forall>j<k. \<not> same_edge u (s ! j, e ! j) (s ! k, e ! k)) = (\<not> added0 ! k)"
    using mk[OF kl] by auto
  show ?case
  proof (cases "added0 ! k")
    case True
    with step have eq: "added = added0" "uniq = uniq0" by (auto simp: unique_step_def)
    from True mk[OF kl] obtain i0 where i0: "i0 < k" "same_edge u (s ! i0, e ! i0) (s ! k, e ! k)"
      by auto
    have "\<And>j. j < length s \<Longrightarrow>
        (\<exists>i<Suc k. i \<le> j \<and> same_edge u (s ! i, e ! i) (s ! j, e ! j))
         = (\<exists>i<k. i \<le> j \<and> same_edge u (s ! i, e ! i) (s ! j, e ! j))"
    proof -
      fix j assume "j < length s"
      show "(\<exists>i<Suc k. i \<le> j \<and> same_edge u (s ! i, e ! i) (s ! j, e ! j))
         = (\<exists>i<k. i \<le> j \<and> same_edge u (s ! i, e ! i) (s ! j, e ! j))"
      proof
        assume "\<exists>i<Suc k. i \<le> j \<and> same_edge u (s ! i, e ! i) (s ! j, e ! j)"
        then obtain i where i: "i < Suc k" "i \<le> j" "same_edge u (s ! i, e ! i) (s ! j, e ! j)"
          by auto
        show "\<exists>i<k. i \<le> j \<and> same_edge u (s ! i, e ! i) (s ! j, e ! j)"
        proof (cases "i = k")
          case True
          with i i0 have "i0 \<le> j" "same_edge u (s ! i0, e ! i0) (s ! j, e ! j)"
            by (auto intro: same_edge_trans)
          with i0 show ?thesis by auto
        next
          case False
          with i show ?thesis by (auto simp: less_Suc_eq)
        qed
      next
        assume "\<exists>i<k. i \<le> j \<and> same_edge u (s ! i, e ! i) (s ! j, e ! j)"
        then show "\<exists>i<Suc k. i \<le> j \<and> same_edge u (s ! i, e ! i) (s ! j, e ! j)"
          by (auto simp: less_Suc_eq)
      qed
    qed
    with eq len mk un fo True show ?thesis by simp
  next
    case False
    with step have eq: "added = mark_added u s e k added0"
      "uniq = uniq0 @ [(s ! k, e ! k)]" by (auto simp: unique_step_def)
    have "\<And>j. j < length s \<Longrightarrow> added ! j
        = (\<exists>i<Suc k. i \<le> j \<and> same_edge u (s ! i, e ! i) (s ! j, e ! j))"
      using len mk by (auto simp: eq mark_added_nth less_Suc_eq)
    with eq len un fo False show ?thesis by (simp add: mark_added_length)
  qed
qed

lemma unique_edges_eq:
  "unique_edges u s e = map (\<lambda>i. (s ! i, e ! i)) (filter (\<lambda>i. \<forall>j<i. \<not> same_edge u (s ! j, e ! j) (s ! i, e ! i)) [0 ..< length s])"
proof -
  obtain added uniq where st:
    "fold (unique_step u s e) [0 ..< length s] (replicate (length s) False, []) = (added, uniq)"
    by (cases "fold (unique_step u s e) [0 ..< length s] (replicate (length s) False, [])") auto
  from unique_fold_inv[OF le_refl st] show ?thesis
    by (simp add: unique_edges_def st)
qed

lemma same_edge_iff:
  "same_edge u a b = (if u then {fst a, snd a} = {fst b, snd b} else a = b)"
  by (auto simp: same_edge_def doubleton_eq_iff prod_eq_iff)

lemma first_list_distinct:
  "distinct (map f (filter (\<lambda>i. \<forall>j<i. f j \<noteq> f i) [0 ..< n]))"
proof -
  have "inj_on f (set (filter (\<lambda>i. \<forall>j<i. f j \<noteq> f i) [0 ..< n]))"
  proof (rule inj_onI)
    fix x y
    assume x: "x \<in> set (filter (\<lambda>i. \<forall>j<i. f j \<noteq> f i) [0 ..< n])"
      and y: "y \<in> set (filter (\<lambda>i. \<forall>j<i. f j \<noteq> f i) [0 ..< n])"
      and eq: "f x = f y"
    show "x = y"
    proof (rule ccontr)
      assume "x \<noteq> y"
      then consider "x < y" | "y < x" by arith
      then show False
      proof cases
        case 1
        with y eq show False by auto
      next
        case 2
        with x eq show False by auto
      qed
    qed
  qed
  then show ?thesis by (simp add: distinct_map)
qed

lemma collect_edges_length:
  "collect_edges nb cct cd cutoff bcs ixs acc = Inr (starts, ends) \<Longrightarrow>
   length (fst acc) = length (snd acc) \<Longrightarrow> length starts = length ends"
proof (induction nb cct cd cutoff bcs ixs acc rule: collect_edges.induct)
  case (1 nb cct cd cutoff ixs acc)
  then show ?case by auto
next
  case (2 nb cct cd cutoff b bs acc)
  then show ?case by simp
next
  case (3 nb cct cd cutoff b bs ix ixs acc)
  then show ?case
    by (auto simp: bindE_def split: sum.splits)
qed

lemma remove_duplicates_snoc:
  "remove_duplicates (xs @ [x]) =
     (if x \<in> set (remove_duplicates xs) then remove_duplicates xs
      else remove_duplicates xs @ [x])"
  by (simp add: remove_duplicates_def)

lemma remove_duplicates_first:
  "remove_duplicates xs = map (\<lambda>i. xs ! i) (filter (\<lambda>i. \<forall>j<i. xs ! j \<noteq> xs ! i) [0 ..< length xs])
   \<and> set (remove_duplicates xs) = set xs"
proof (induction xs rule: rev_induct)
  case Nil
  then show ?case by (simp add: remove_duplicates_def)
next
  case (snoc x xs)
  let ?n = "length xs"
  have f1: "filter (\<lambda>i. \<forall>j<i. (xs @ [x]) ! j \<noteq> (xs @ [x]) ! i) [0 ..< ?n]
      = filter (\<lambda>i. \<forall>j<i. xs ! j \<noteq> xs ! i) [0 ..< ?n]"
    by (rule filter_cong) (auto simp: nth_append)
  have m1: "map (\<lambda>i. (xs @ [x]) ! i) (filter (\<lambda>i. \<forall>j<i. xs ! j \<noteq> xs ! i) [0 ..< ?n])
      = map (\<lambda>i. xs ! i) (filter (\<lambda>i. \<forall>j<i. xs ! j \<noteq> xs ! i) [0 ..< ?n])"
    by (rule map_cong) (auto simp: nth_append)
  have last: "(\<forall>j<?n. (xs @ [x]) ! j \<noteq> (xs @ [x]) ! ?n) = (x \<notin> set xs)"
    by (auto simp: nth_append in_set_conv_nth)
  note ih1 = snoc.IH[THEN conjunct1] and ih2 = snoc.IH[THEN conjunct2]
  let ?Q = "\<lambda>i. \<forall>j<i. (xs @ [x]) ! j \<noteq> (xs @ [x]) ! i"
  have lhs: "remove_duplicates (xs @ [x]) =
      (if x \<in> set xs then remove_duplicates xs else remove_duplicates xs @ [x])"
    by (simp only: remove_duplicates_snoc ih2)
  have "map (\<lambda>i. (xs @ [x]) ! i) (filter ?Q [0 ..< length (xs @ [x])])
      = map (\<lambda>i. (xs @ [x]) ! i) (filter ?Q [0 ..< ?n])
        @ (if ?Q ?n then [x] else [])"
    by simp
  also have "\<dots> = remove_duplicates xs @ (if x \<in> set xs then [] else [x])"
    by (simp only: f1 m1 last ih1[symmetric]) simp
  finally have rhs: "map (\<lambda>i. (xs @ [x]) ! i) (filter ?Q [0 ..< length (xs @ [x])])
      = remove_duplicates xs @ (if x \<in> set xs then [] else [x])" .
  have st: "set (remove_duplicates (xs @ [x])) = set (xs @ [x])"
    using ih2 by (auto simp: lhs)
  show ?case
    by (simp only: rhs st) (simp add: lhs)
qed

lemma unique_edges_zip:
  assumes len: "length s = length e"
  shows "unique_edges u s e =
     map (\<lambda>i. zip s e ! i)
       (filter (\<lambda>i. \<forall>j<i. \<not> (if u then {fst (zip s e ! j), snd (zip s e ! j)}
                                        = {fst (zip s e ! i), snd (zip s e ! i)}
                                 else zip s e ! j = zip s e ! i))
          [0 ..< length (zip s e)])"
proof -
  have n: "length (zip s e) = length s" using len by simp
  have f: "filter (\<lambda>i. \<forall>j<i. \<not> same_edge u (s ! j, e ! j) (s ! i, e ! i)) [0 ..< length s] =
      filter (\<lambda>i. \<forall>j<i. \<not> (if u then {fst (zip s e ! j), snd (zip s e ! j)}
                                        = {fst (zip s e ! i), snd (zip s e ! i)}
                                 else zip s e ! j = zip s e ! i)) [0 ..< length s]"
    using len by (intro filter_cong refl) (auto simp: same_edge_iff)
  have m: "\<And>L. set L \<subseteq> {0 ..< length s} \<Longrightarrow>
      map (\<lambda>i. (s ! i, e ! i)) L = map (\<lambda>i. zip s e ! i) L"
    using len by (intro map_cong refl) auto
  show ?thesis
    unfolding unique_edges_eq n f
    by (rule m) auto
qed

text \<open>
  Claim C1. Whenever the first loop of \<open>get_between_spot_edge_array\<close> has collected the
  candidate edges \<open>es\<close> (in enumeration order), the function returns exactly the edges
  of \<open>es\<close> that no earlier edge of \<open>es\<close> equals: as a (source, destination) pair when
  directed, as an unordered pair of barcodes when undirected. So every retained edge is
  the first occurrence of its class, no two returned edges are the same pair, and when
  undirected no two are the same unordered pair. The duplicate removal of \<open>get_edges\<close>
  keeps the first occurrence of every (source, destination) pair in the same way.
\<close>

theorem get_between_spot_edge_array_unique:
  assumes coll: "collect_edges neigh_bool cct cell_data cutoff bcs ixs ([], []) = Inr (starts, ends)"
    and es: "es = zip starts ends"
  shows "\<exists>uniq. get_between_spot_edge_array bcs ixs neigh_bool cct cell_data cutoff undirected
           = Inr uniq
      \<and> uniq = map (\<lambda>i. es ! i)
          (filter (\<lambda>i. \<forall>j<i. \<not> (if undirected
                                     then {fst (es ! j), snd (es ! j)} = {fst (es ! i), snd (es ! i)}
                                     else es ! j = es ! i))
             [0 ..< length es])
      \<and> distinct uniq
      \<and> (undirected \<longrightarrow> distinct (map (\<lambda>e. {fst e, snd e}) uniq))
      \<and> remove_duplicates all_edges = map (\<lambda>i. all_edges ! i)
          (filter (\<lambda>i. \<forall>j<i. all_edges ! j \<noteq> all_edges ! i) [0 ..< length all_edges])
      \<and> distinct (remove_duplicates all_edges)"
proof -
  let ?key = "\<lambda>i. {fst (es ! i), snd (es ! i)}"
  let ?P = "\<lambda>i. \<forall>j<i. \<not> (if undirected then ?key j = ?key i else es ! j = es ! i)"
  let ?uniq = "map (\<lambda>i. es ! i) (filter ?P [0 ..< length es])"
  from coll have len: "length starts = length ends"
    by (rule collect_edges_length) simp
  have res: "get_between_spot_edge_array bcs ixs neigh_bool cct cell_data cutoff undirected
      = Inr ?uniq"
    by (simp add: get_between_spot_edge_array_def coll bindE_def es
          unique_edges_zip[OF len])
  have d_und: "distinct (map (\<lambda>e. {fst e, snd e}) ?uniq)" if "undirected"
  proof -
    have "filter ?P [0 ..< length es] = filter (\<lambda>i. \<forall>j<i. ?key j \<noteq> ?key i) [0 ..< length es]"
      using that by simp
    moreover have "distinct (map ?key (filter (\<lambda>i. \<forall>j<i. ?key j \<noteq> ?key i) [0 ..< length es]))"
      by (rule first_list_distinct)
    ultimately show ?thesis by (simp add: o_def)
  qed
  have d_dir: "distinct ?uniq"
  proof (cases undirected)
    case True
    from d_und[OF True] show ?thesis
      unfolding distinct_map[of "\<lambda>e. {fst e, snd e}"] by (rule conjunct1)
  next
    case False
    then have "filter ?P [0 ..< length es] = filter (\<lambda>i. \<forall>j<i. es ! j \<noteq> es ! i) [0 ..< length es]"
      by simp
    moreover have "distinct (map (\<lambda>i. es ! i) (filter (\<lambda>i. \<forall>j<i. es ! j \<noteq> es ! i) [0 ..< length es]))"
      by (rule first_list_distinct)
    ultimately show ?thesis by simp
  qed
  have rd: "remove_duplicates all_edges = map (\<lambda>i. all_edges ! i)
          (filter (\<lambda>i. \<forall>j<i. all_edges ! j \<noteq> all_edges ! i) [0 ..< length all_edges])"
    by (rule remove_duplicates_first[THEN conjunct1])
  have rdd: "distinct (remove_duplicates all_edges)"
    unfolding rd by (rule first_list_distinct)
  from res d_dir d_und rd rdd show ?thesis by blast
qed

theorem get_between_spot_edge_array_unique_witness:
  "collect_edges [True, True] False None 0
         [(''A'', [''B'', ''B'']), (''B'', [''A''])] [(0, [1, 1]), (1, [0])] ([], [])
       = Inr ([''A'', ''A'', ''B''], [''B'', ''B'', ''A''])
   \<and> get_between_spot_edge_array [(''A'', [''B'', ''B'']), (''B'', [''A''])]
         [(0, [1, 1]), (1, [0])] [True, True] False None 0 True = Inr [(''A'', ''B'')]
   \<and> remove_duplicates [(''A'', ''B''), (''B'', ''A''), (''A'', ''B'')]
       = [(''A'', ''B''), (''B'', ''A'')]"
proof -
  have c: "collect_edges [True, True] False None 0
         [(''A'', [''B'', ''B'']), (''B'', [''A''])] [(0, [1, 1]), (1, [0])] ([], [])
       = Inr ([''A'', ''A'', ''B''], [''B'', ''B'', ''A''])"
    by (simp add: interact_neighs_def bindE_def bool_index_def)
  have u: "[0 ..< 3] = [0, 1, 2]" by (simp add: upt_rec)
  from get_between_spot_edge_array_unique[OF c refl, of True
      "[(''A'', ''B''), (''B'', ''A''), (''A'', ''B'')]"]
  show ?thesis using c
    by (auto simp: u less_Suc_eq numeral_3_eq_3 doubleton_eq_iff)
qed

subsection \<open>The cell type filter\<close>

lemma take_idx_in_range:
  "\<forall>i \<in> set js. i < length xs \<Longrightarrow> take_idx xs js = Inr (map (\<lambda>i. xs ! i) js)"
  by (induction js) (auto simp: bindE_def)

lemma mask_filter_fst:
  "length xs = length ys \<Longrightarrow>
   map fst (filter snd (zip xs (map p ys))) = map fst (filter (\<lambda>z. p (snd z)) (zip xs ys))"
  by (induction xs ys rule: list_induct2) auto

lemma mask_filter_self:
  "map fst (filter snd (zip ys (map p ys))) = filter p ys"
  by (induction ys) auto

lemma filter_snd_zip:
  "length xs = length ys \<Longrightarrow>
   map snd (filter (\<lambda>z. p (snd z)) (zip xs ys)) = filter p ys"
  by (induction xs ys rule: list_induct2) auto

lemma zip_fst_snd: "zip (map fst zs) (map snd zs) = zs"
  by (induction zs) auto

lemma sum_bool_all:
  "(sum_bool (map P row) = length row) = (\<forall>c<length row. P (row ! c))"
proof -
  have "length (filter (\<lambda>b. b) (map P row)) = length (filter P row)"
    by (simp add: filter_map o_def)
  moreover have "(length (filter P row) = length row) = (\<forall>x \<in> set row. P x)"
    by (metis filter_id_conv length_filter_less less_irrefl filter_True)
  ultimately show ?thesis
    by (simp add: sum_bool_def all_set_conv_all_nth)
qed

lemma interact_neighs_cell_types:
  assumes wf: "wf_ndarray cd"
    and len: "length nbcs = length nidx"
    and rng: "\<forall>ix \<in> set nidx. ix < length neigh_bool \<and> ix < length (rows cd)"
  shows "interact_neighs neigh_bool True (Some cd) cutoff (sb, nbcs) (si, nidx) =
     Inr (map fst (filter (\<lambda>z. neigh_bool ! snd z \<and> (\<forall>c<ncols cd. rows cd ! snd z ! c > cutoff))
                     (zip nbcs nidx)))"
proof -
  let ?p = "\<lambda>ix. neigh_bool ! ix"
  let ?q = "\<lambda>ix. \<forall>c<ncols cd. rows cd ! ix ! c > cutoff"
  let ?F = "filter (\<lambda>z. ?p (snd z)) (zip nbcs nidx)"
  have t1: "take_idx neigh_bool nidx = Inr (map ?p nidx)"
    using rng by (intro take_idx_in_range) auto
  have b1: "bool_index nbcs (map ?p nidx) = Inr (map fst ?F)"
    using len by (simp add: bool_index_def mask_filter_fst)
  have b2: "bool_index nidx (map ?p nidx) = Inr (map snd ?F)"
    using len by (simp add: bool_index_def mask_filter_self filter_snd_zip)
  have sub: "\<And>ix. ix \<in> set (map snd ?F) \<Longrightarrow> ix \<in> set nidx"
    by (auto dest: set_zip_rightD)
  have rng2: "\<forall>ix \<in> set (map snd ?F). ix < length (rows cd)"
    using rng sub by blast
  have t2: "take_idx (rows cd) (map snd ?F) = Inr (map (\<lambda>ix. rows cd ! ix) (map snd ?F))"
    using rng2 by (rule take_idx_in_range)
  have rowlen: "\<And>ix. ix \<in> set (map snd ?F) \<Longrightarrow> length (rows cd ! ix) = ncols cd"
  proof -
    fix ix assume "ix \<in> set (map snd ?F)"
    with rng2 have "ix < length (rows cd)" by blast
    then have "rows cd ! ix \<in> set (rows cd)" by simp
    with wf show "length (rows cd ! ix) = ncols cd"
      by (simp add: wf_ndarray_def list_all_iff)
  qed
  have q: "map (\<lambda>s. s = ncols cd) (map sum_bool (map (map (\<lambda>v. v > cutoff))
              (map (\<lambda>ix. rows cd ! ix) (map snd ?F)))) = map ?q (map snd ?F)"
  proof -
    have "\<And>ix. ix \<in> set (map snd ?F) \<Longrightarrow>
        (sum_bool (map (\<lambda>v. v > cutoff) (rows cd ! ix)) = ncols cd) = ?q ix"
      using sum_bool_all[of "\<lambda>v. v > cutoff"] rowlen by metis
    then show ?thesis by (simp add: o_def cong: map_cong)
  qed
  have b3: "bool_index (map fst ?F) (map ?q (map snd ?F)) =
      Inr (map fst (filter (\<lambda>z. ?q (snd z)) ?F))"
  proof -
    have "map fst (filter snd (zip (map fst ?F) (map ?q (map snd ?F))))
        = map fst (filter (\<lambda>z. ?q (snd z)) (zip (map fst ?F) (map snd ?F)))"
      by (rule mask_filter_fst) simp
    also have "\<dots> = map fst (filter (\<lambda>z. ?q (snd z)) ?F)"
      by (simp only: zip_fst_snd)
    finally have e: "map fst (filter snd (zip (map fst ?F) (map ?q (map snd ?F))))
        = map fst (filter (\<lambda>z. ?q (snd z)) ?F)" .
    have l: "length (map fst ?F) = length (map ?q (map snd ?F))" by simp
    show ?thesis
      unfolding bool_index_def by (simp only: l e refl if_True)
  qed
  have fin: "map fst (filter (\<lambda>z. ?q (snd z)) ?F)
      = map fst (filter (\<lambda>z. ?p (snd z) \<and> ?q (snd z)) (zip nbcs nidx))"
    by (simp add: conj_commute)
  show ?thesis
  proof (cases "map snd ?F = []")
    case True
    then have "?F = []" by simp
    then have "map fst (filter (\<lambda>z. ?p (snd z) \<and> ?q (snd z)) (zip nbcs nidx)) = []"
      by (metis (no_types, lifting) filter.simps(1) fin list.simps(8))
    with True show ?thesis
      by (simp add: interact_neighs_def t1 b1 b2 bindE_def)
  next
    case False
    then show ?thesis
      unfolding interact_neighs_def
      by (simp add: t1 b1 b2 t2 q b3 fin bindE_def Let_def del: map_map)
  qed
qed

lemma zip_map_same: "zip (map f xs) (map g xs) = map (\<lambda>x. (f x, g x)) xs"
  by (induction xs) auto

lemma collect_edges_cell_types:
  assumes wf: "wf_ndarray cd"
  shows "length bcs = length ixs \<Longrightarrow>
    \<forall>(b, ix) \<in> set (zip bcs ixs). length (snd b) = length (snd ix) \<and>
       (\<forall>i \<in> set (snd ix). i < length nb \<and> i < length (rows cd)) \<Longrightarrow>
    length (fst acc) = length (snd acc) \<Longrightarrow>
    \<exists>starts ends. collect_edges nb True (Some cd) cutoff bcs ixs acc = Inr (starts, ends) \<and>
      zip starts ends = zip (fst acc) (snd acc) @
        concat (map (\<lambda>(b, ix). map (\<lambda>z. (fst b, fst z))
                  (filter (\<lambda>z. nb ! snd z \<and> (\<forall>c<ncols cd. cutoff < rows cd ! snd z ! c))
                     (zip (snd b) (snd ix)))) (zip bcs ixs))"
proof (induction bcs ixs arbitrary: acc rule: list_induct2)
  case Nil
  then show ?case by (cases acc) simp
next
  case (Cons b bs ix ixs)
  let ?kept = "map fst (filter (\<lambda>z. nb ! snd z \<and> (\<forall>c<ncols cd. cutoff < rows cd ! snd z ! c))
                     (zip (snd b) (snd ix)))"
  let ?acc = "(fst acc @ replicate (length ?kept) (fst b), snd acc @ ?kept)"
  from Cons.prems have hd: "length (snd b) = length (snd ix)"
    "\<forall>i \<in> set (snd ix). i < length nb \<and> i < length (rows cd)"
    and tl: "\<forall>(b, ix) \<in> set (zip bs ixs). length (snd b) = length (snd ix) \<and>
       (\<forall>i \<in> set (snd ix). i < length nb \<and> i < length (rows cd))"
    by auto
  have step: "interact_neighs nb True (Some cd) cutoff b ix = Inr ?kept"
    using interact_neighs_cell_types[OF wf hd(1) hd(2), of cutoff "fst b" "fst ix"]
    by simp
  have l: "length (fst ?acc) = length (snd ?acc)" using Cons.prems(2) by simp
  from Cons.IH[OF tl l] obtain starts ends where
    r: "collect_edges nb True (Some cd) cutoff bs ixs ?acc = Inr (starts, ends)" and
    z: "zip starts ends = zip (fst ?acc) (snd ?acc) @
        concat (map (\<lambda>(b, ix). map (\<lambda>z. (fst b, fst z))
                  (filter (\<lambda>z. nb ! snd z \<and> (\<forall>c<ncols cd. cutoff < rows cd ! snd z ! c))
                     (zip (snd b) (snd ix)))) (zip bs ixs))"
    by blast
  have zz: "zip (fst ?acc) (snd ?acc) = zip (fst acc) (snd acc) @
      map (\<lambda>z. (fst b, fst z))
        (filter (\<lambda>z. nb ! snd z \<and> (\<forall>c<ncols cd. cutoff < rows cd ! snd z ! c))
           (zip (snd b) (snd ix)))"
    using Cons.prems(2)
    by (simp add: map_replicate_const[symmetric] zip_map_same del: replicate.simps)
  have e: "collect_edges nb True (Some cd) cutoff (b # bs) (ix # ixs) acc = Inr (starts, ends)"
    unfolding collect_edges.simps step bindE_def sum.case by (rule r)
  have "zip starts ends = zip (fst acc) (snd acc) @
        concat (map (\<lambda>(b, ix). map (\<lambda>z. (fst b, fst z))
                  (filter (\<lambda>z. nb ! snd z \<and> (\<forall>c<ncols cd. cutoff < rows cd ! snd z ! c))
                     (zip (snd b) (snd ix)))) (zip (b # bs) (ix # ixs)))"
    unfolding z zz by simp
  with e show ?case by blast
qed

lemma first_occurrence_exists:
  "\<exists>j\<le>i. (\<forall>k<j. f k \<noteq> f j) \<and> f j = f (i::nat)"
proof (induction i rule: less_induct)
  case (less i)
  show ?case
  proof (cases "\<forall>k<i. f k \<noteq> f i")
    case True
    then show ?thesis by auto
  next
    case False
    then obtain k where k: "k < i" "f k = f i" by auto
    from less[OF k(1)] obtain j where "j \<le> k" "\<forall>m<j. f m \<noteq> f j" "f j = f k" by auto
    with k show ?thesis by (intro exI[of _ j]) auto
  qed
qed

lemma first_occurrences_cover:
  assumes "e \<in> set es"
  shows "\<exists>e' \<in> set (map (\<lambda>i. es ! i) (filter (\<lambda>i. \<forall>j<i. f (es ! j) \<noteq> f (es ! i)) [0 ..< length es])).
           f e' = f e"
proof -
  from assms obtain i where i: "i < length es" "es ! i = e" by (auto simp: in_set_conv_nth)
  from first_occurrence_exists[of i "\<lambda>i. f (es ! i)"] obtain j where
    j: "j \<le> i" "\<forall>k<j. f (es ! k) \<noteq> f (es ! j)" "f (es ! j) = f (es ! i)" by auto
  with i have mem: "es ! j \<in> set (map (\<lambda>i. es ! i)
      (filter (\<lambda>i. \<forall>j<i. f (es ! j) \<noteq> f (es ! i)) [0 ..< length es]))"
    by auto
  from j(3) i(2) have "f (es ! j) = f e" by simp
  with mem show ?thesis by (rule bexI[rotated])
qed

lemma first_occurrences_subset:
  "set (map (\<lambda>i. zs ! i) (filter P [0 ..< length zs])) \<subseteq> set zs"
  by auto

lemma first_occurrences_cover_set:
  assumes eq: "us = map (\<lambda>i. zs ! i) (filter (\<lambda>i. \<forall>j<i. f (zs ! j) \<noteq> f (zs ! i)) [0 ..< length zs])"
  shows "set us \<subseteq> set zs \<and> (\<forall>x \<in> set zs. \<exists>y \<in> set us. f y = f x)"
proof -
  have "set us \<subseteq> set zs" unfolding eq by (rule first_occurrences_subset)
  moreover have "\<forall>x \<in> set zs. \<exists>y \<in> set us. f y = f x"
    unfolding eq using first_occurrences_cover[of _ zs f] by blast
  ultimately show ?thesis by blast
qed

lemma unique_edges_cover:
  assumes len: "length s = length e"
  shows "set (unique_edges u s e) \<subseteq> set (zip s e) \<and>
    (\<forall>x \<in> set (zip s e). \<exists>y \<in> set (unique_edges u s e).
        y = x \<or> (u \<and> y = (snd x, fst x)))"
proof (cases u)
  case True
  have eq: "unique_edges u s e = map (\<lambda>i. zip s e ! i)
       (filter (\<lambda>i. \<forall>j<i. (\<lambda>x. {fst x, snd x}) (zip s e ! j) \<noteq> (\<lambda>x. {fst x, snd x}) (zip s e ! i))
          [0 ..< length (zip s e)])"
    using True by (simp add: unique_edges_zip[OF len])
  have key: "\<And>x y :: string \<times> string. {fst y, snd y} = {fst x, snd x} \<Longrightarrow>
      y = x \<or> y = (snd x, fst x)"
    by (auto simp: doubleton_eq_iff prod_eq_iff)
  from first_occurrences_cover_set[OF eq]
  have a: "set (unique_edges u s e) \<subseteq> set (zip s e)"
    and b: "\<forall>x \<in> set (zip s e). \<exists>y \<in> set (unique_edges u s e).
              {fst y, snd y} = {fst x, snd x}"
    by simp_all
  show ?thesis
  proof (intro conjI ballI)
    show "set (unique_edges u s e) \<subseteq> set (zip s e)" by (rule a)
  next
    fix x assume "x \<in> set (zip s e)"
    with b obtain y where y: "y \<in> set (unique_edges u s e)"
      "{fst y, snd y} = {fst x, snd x}" by blast
    from key[OF y(2)] True have "y = x \<or> (u \<and> y = (snd x, fst x))" by simp
    with y(1) show "\<exists>y \<in> set (unique_edges u s e). y = x \<or> (u \<and> y = (snd x, fst x))"
      by (rule bexI[rotated])
  qed
next
  case False
  have eq: "unique_edges u s e = map (\<lambda>i. zip s e ! i)
       (filter (\<lambda>i. \<forall>j<i. (\<lambda>x. x) (zip s e ! j) \<noteq> (\<lambda>x. x) (zip s e ! i))
          [0 ..< length (zip s e)])"
    using False by (simp add: unique_edges_zip[OF len])
  from first_occurrences_cover_set[OF eq]
  have a: "set (unique_edges u s e) \<subseteq> set (zip s e)"
    and b: "\<forall>x \<in> set (zip s e). \<exists>y \<in> set (unique_edges u s e). y = x"
    by simp_all
  show ?thesis
  proof (intro conjI ballI)
    show "set (unique_edges u s e) \<subseteq> set (zip s e)" by (rule a)
  next
    fix x assume "x \<in> set (zip s e)"
    with b have "x \<in> set (unique_edges u s e)" by simp
    then show "\<exists>y \<in> set (unique_edges u s e). y = x \<or> (u \<and> y = (snd x, fst x))"
      by (intro bexI[of _ x]) simp_all
  qed
qed

text \<open>
  Claim C3. With \<open>count_cell_types = True\<close>, on arrays of fitting sizes, the candidate
  edges collected by \<open>get_between_spot_edge_array\<close> are, spot by spot and in order, the
  pairs (spot, neighbour) for exactly those neighbours that satisfy \<open>neigh_bool\<close> and
  whose row of \<open>cell_data\<close> exceeds the cutoff strictly in every column. The returned
  list holds only such edges, and every such edge is returned, or, when undirected, its
  reverse is.
\<close>

theorem cell_type_filter_all_categories:
  assumes wf: "wf_ndarray cell_data"
    and len: "length bcs = length ixs"
    and ent: "\<forall>(b, ix) \<in> set (zip bcs ixs). length (snd b) = length (snd ix) \<and>
       (\<forall>i \<in> set (snd ix). i < length neigh_bool \<and> i < length (rows cell_data))"
    and cands: "cands = concat (map (\<lambda>(b, ix). map (\<lambda>z. (fst b, fst z))
                  (filter (\<lambda>z. neigh_bool ! snd z \<and>
                               (\<forall>c<ncols cell_data. cutoff < rows cell_data ! snd z ! c))
                     (zip (snd b) (snd ix)))) (zip bcs ixs))"
  shows "(\<exists>starts ends.
            collect_edges neigh_bool True (Some cell_data) cutoff bcs ixs ([], [])
              = Inr (starts, ends) \<and> zip starts ends = cands) \<and>
         (\<exists>uniq. get_between_spot_edge_array bcs ixs neigh_bool True (Some cell_data) cutoff
                    undirected = Inr uniq \<and>
            set uniq \<subseteq> set cands \<and>
            (\<forall>e \<in> set cands. \<exists>e' \<in> set uniq. e' = e \<or> (undirected \<and> e' = (snd e, fst e))))"
proof -
  from collect_edges_cell_types[OF wf len ent, of "([], [])" cutoff]
  obtain starts ends where
    c: "collect_edges neigh_bool True (Some cell_data) cutoff bcs ixs ([], []) = Inr (starts, ends)"
    and z: "zip starts ends = cands"
    by (auto simp: cands)
  from c have l: "length starts = length ends"
    by (rule collect_edges_length) simp
  have g: "get_between_spot_edge_array bcs ixs neigh_bool True (Some cell_data) cutoff
             undirected = Inr (unique_edges undirected starts ends)"
    by (simp add: get_between_spot_edge_array_def c bindE_def)
  from unique_edges_cover[OF l, of undirected] z g c show ?thesis
    by auto
qed

theorem cell_type_filter_all_categories_witness:
  "get_between_spot_edge_array
     [(''A'', [''B'', ''C'', ''D''])] [(0, [1, 2, 3])] [True, True, True, False] True
     (Some \<lparr>ncols = 2, rows = [[1, 1], [1/2, 1/2], [1/2, 1/10], [1, 1]]\<rparr>) (2/10) True
   = Inr [(''A'', ''B'')]
   \<and> (\<exists>starts ends.
        collect_edges [True, True, True, False] True
          (Some \<lparr>ncols = 2, rows = [[1, 1], [1/2, 1/2], [1/2, 1/10], [1, 1]]\<rparr>) (2/10)
          [(''A'', [''B'', ''C'', ''D''])] [(0, [1, 2, 3])] ([], []) = Inr (starts, ends)
        \<and> zip starts ends = [(''A'', ''B'')])"
proof -
  have wf: "wf_ndarray \<lparr>ncols = 2, rows = [[1, 1], [1/2, 1/2], [1/2, 1/10], [1, 1::real]]\<rparr>"
    by (simp add: wf_ndarray_def)
  have ent: "\<forall>(b, ix) \<in> set (zip [(''A'', [''B'', ''C'', ''D''])] [(0::nat, [1, 2, 3::nat])]).
       length (snd b) = length (snd ix) \<and>
       (\<forall>i \<in> set (snd ix). i < length [True, True, True, False] \<and>
          i < length (rows \<lparr>ncols = 2, rows = [[1, 1], [1/2, 1/2], [1/2, 1/10], [1, 1::real]]\<rparr>))"
    by simp
  have c2: "\<And>P. (\<forall>c<2::nat. P c) = (P 0 \<and> P 1)"
    by (auto simp: less_Suc_eq numeral_2_eq_2)
  have ev: "get_between_spot_edge_array
     [(''A'', [''B'', ''C'', ''D''])] [(0, [1, 2, 3])] [True, True, True, False] True
     (Some \<lparr>ncols = 2, rows = [[1, 1], [1/2, 1/2], [1/2, 1/10], [1, 1]]\<rparr>) (2/10) True
   = Inr [(''A'', ''B'')]"
    by (simp add: get_between_spot_edge_array_def interact_neighs_def bindE_def
          bool_index_def sum_bool_def unique_edges_def unique_step_def mark_added_def
          same_edge_def)
  from cell_type_filter_all_categories[OF wf _ ent refl, of "2/10" True]
  have "\<exists>starts ends.
        collect_edges [True, True, True, False] True
          (Some \<lparr>ncols = 2, rows = [[1, 1], [1/2, 1/2], [1/2, 1/10], [1, 1]]\<rparr>) (2/10)
          [(''A'', [''B'', ''C'', ''D''])] [(0, [1, 2, 3])] ([], []) = Inr (starts, ends)
        \<and> zip starts ends = [(''A'', ''B'')]"
    by (simp add: c2)
  with ev show ?thesis by blast
qed

section \<open>Properties of count\_core, count and create\_grids\<close>

subsection \<open>No spot indices\<close>

text \<open>
  Claim C10. With an empty array of spot indices \<open>count_core\<close> returns the empty edge
  list when \<open>return_edges\<close> is set and the count 0 otherwise, whatever the dataset, the
  neighbours and the other arguments are.
\<close>

theorem count_core_empty_spot_indices:
  "count_core adata use_label neighs (Some []) neigh_bool label_set spot_mixtures cutoff
     return_edges = Inr (if return_edges then Edges [] else Count 0)"
  by (simp add: count_core_def Let_def)

theorem count_core_empty_spot_indices_witness:
  "count_core example_adata ''cell_type'' [] (Some []) None None True (2 / 10) False
     = Inr (Count 0) \<and>
   count_core example_adata ''cell_type'' [] (Some []) None None True (2 / 10) True
     = Inr (Edges [])"
  using count_core_empty_spot_indices[of example_adata "''cell_type''" "[]" None None True
      "2 / 10" False]
    count_core_empty_spot_indices[of example_adata "''cell_type''" "[]" None None True
      "2 / 10" True]
  by simp

subsection \<open>Successful runs of count\<close>

lemma bindE_Inr_iff: "(bindE m f = Inr y) = (\<exists>x. m = Inr x \<and> f x = Inr y)"
  by (cases m) (simp_all add: bindE_def)

lemma take_idx_Inr:
  "take_idx xs js = Inr ys \<Longrightarrow> ys = map (\<lambda>i. xs ! i) js \<and> (\<forall>j \<in> set js. j < length xs)"
  by (induction js arbitrary: ys) (auto simp: bindE_Inr_iff split: if_splits)

lemma mapE_Inr:
  "mapE f xs = Inr ys \<Longrightarrow> length ys = length xs \<and> (\<forall>k<length xs. f (xs ! k) = Inr (ys ! k))"
proof (induction xs arbitrary: ys)
  case Nil
  then show ?case by simp
next
  case (Cons x xs)
  from Cons.prems obtain y ys' where y: "f x = Inr y" and ys': "mapE f xs = Inr ys'"
    and e: "ys = y # ys'"
    by (auto simp: bindE_Inr_iff)
  from Cons.IH[OF ys'] have l: "length ys' = length xs"
    and n: "\<And>k. k < length xs \<Longrightarrow> f (xs ! k) = Inr (ys' ! k)" by simp_all
  show ?case
  proof (intro conjI allI impI)
    show "length ys = length (x # xs)" using l e by simp
  next
    fix k assume "k < length (x # xs)"
    then show "f ((x # xs) ! k) = Inr (ys ! k)"
      using y n e by (cases k) simp_all
  qed
qed

lemma query_ball_point_self:
  "0 \<le> r \<Longrightarrow> k < length pts \<Longrightarrow> k \<in> set (query_ball_point pts (pts ! k) r)"
  by (simp add: query_ball_point_def)

text \<open>What a successful run of the between-spot counting has computed.\<close>

lemma count_between_Inr:
  assumes "count_between adata use_label use_het r = Inr adata'"
  shows "\<exists>pts cs. coor adata = Inr pts \<and>
    adata' = adata\<lparr>obsm := (obsm adata)(use_het \<mapsto> HetCounts cs)\<rparr> \<and>
    length cs = length (obs_names adata) \<and>
    (\<forall>k<length (obs_names adata). k < length pts \<and>
       (\<exists>ns df. take_idx (obs_names adata) (query_ball_point pts (pts ! k) r) = Inr ns \<and>
          (0 \<le> r \<longrightarrow> obs_names adata ! k \<in> set ns) \<and>
          get_frame adata use_label = Inr df \<and>
          count_cell_types_in df ns = Inr (cs ! k)))"
proof -
  let ?n = "length (obs_names adata)"
  from assms obtain pts cs where
    pts: "coor adata = Inr pts" and
    m: "mapE (\<lambda>k.
              bindE (count_neighbours adata pts r k) (\<lambda>neighbours.
              bindE (get_frame adata use_label) (\<lambda>df.
                count_cell_types_in df neighbours)))
            [0 ..< ?n] = Inr cs" and
    res: "adata' = adata\<lparr>obsm := (obsm adata)(use_het \<mapsto> HetCounts cs)\<rparr>"
    by (auto simp: count_between_def bindE_Inr_iff)
  from mapE_Inr[OF m] have len: "length cs = ?n"
    and each: "\<And>k. k < ?n \<Longrightarrow>
        bindE (count_neighbours adata pts r k) (\<lambda>neighbours.
              bindE (get_frame adata use_label) (\<lambda>df.
                count_cell_types_in df neighbours)) = Inr (cs ! k)"
    by simp_all
  have "k < length pts \<and>
       (\<exists>ns df. take_idx (obs_names adata) (query_ball_point pts (pts ! k) r) = Inr ns \<and>
          (0 \<le> r \<longrightarrow> obs_names adata ! k \<in> set ns) \<and>
          get_frame adata use_label = Inr df \<and>
          count_cell_types_in df ns = Inr (cs ! k))" if k: "k < ?n" for k
  proof -
    from each[OF k] obtain ns df where
      cn: "count_neighbours adata pts r k = Inr ns" and
      df: "get_frame adata use_label = Inr df" and
      ct: "count_cell_types_in df ns = Inr (cs ! k)"
      by (auto simp: bindE_Inr_iff)
    from cn have kp: "k < length pts"
      and ti: "take_idx (obs_names adata) (query_ball_point pts (pts ! k) r) = Inr ns"
      by (auto simp: count_neighbours_def split: if_splits)
    from take_idx_Inr[OF ti] have ns: "ns = map (\<lambda>i. obs_names adata ! i)
        (query_ball_point pts (pts ! k) r)" by simp
    have "obs_names adata ! k \<in> set ns" if "0 \<le> r"
      using query_ball_point_self[OF that kp] by (simp add: ns)
    with kp ti df ct show ?thesis by blast
  qed
  with pts res len show ?thesis by blast
qed

lemma count_Inr_between:
  assumes c: "count adata use_label use_het verbose distance = Inr (adata', msgs)"
    and d: "distance \<noteq> Some 0"
  shows "\<exists>library_id lib r. first_library adata = Inr (library_id, lib) \<and>
    count_distance lib distance = Inr r \<and>
    count_between adata use_label use_het r = Inr adata'"
  using c d
  by (auto simp: count_def bindE_Inr_iff split: if_splits)

text \<open>The small dataset: its library, its coordinates, and the counts for the radii 1 and
  one half.\<close>

lemma example_library:
  "first_library example_adata = Inr (''lib'',
     \<lparr>scalefactors = Some [''spot_diameter_fullres'' \<mapsto> 1, ''tissue_hires_scalef'' \<mapsto> 1 / 2],
      use_quality = Some ''hires''\<rparr>)"
  by (simp add: first_library_def example_adata_def)

lemma example_coor: "coor example_adata = Inr [(0, 0), (0, 1)]"
  by (simp add: coor_def example_adata_def)

lemma example_names: "obs_names example_adata = [''A'', ''B'']"
  by (simp add: example_adata_def)

lemma example_frame:
  "get_frame example_adata (Some ''cell_type'') =
     Inr \<lparr>df_index = [''A'', ''B''], df_columns = [''T''], df_values = [[1 / 10], [1 / 2]]\<rparr>"
  by (simp add: get_frame_def example_adata_def)

lemma example_columns:
  "loc_columns \<lparr>df_index = [''A'', ''B''], df_columns = [''T''], df_values = [[1 / 10], [1 / 2]]\<rparr>
     [''T''] = Inr \<lparr>ncols = 1, rows = [[1 / 10], [1 / 2]]\<rparr>"
  by (simp add: loc_columns_def bindE_def)

lemma example_cell_types_AB:
  "count_cell_types_in
     \<lparr>df_index = [''A'', ''B''], df_columns = [''T''], df_values = [[1 / 10], [1 / 2]]\<rparr>
     [''A'', ''B''] = Inr 1"
  by (simp add: count_cell_types_in_def loc_rows_def bindE_def)

lemma example_cell_types_A:
  "count_cell_types_in
     \<lparr>df_index = [''A'', ''B''], df_columns = [''T''], df_values = [[1 / 10], [1 / 2]]\<rparr>
     [''A''] = Inr 0"
  by (simp add: count_cell_types_in_def loc_rows_def bindE_def)

lemma example_cell_types_B:
  "count_cell_types_in
     \<lparr>df_index = [''A'', ''B''], df_columns = [''T''], df_values = [[1 / 10], [1 / 2]]\<rparr>
     [''B''] = Inr 1"
  by (simp add: count_cell_types_in_def loc_rows_def bindE_def)

lemma example_query_1:
  "query_ball_point [(0, 0), (0, 1)] (0, 0) 1 = [0, 1]"
  "query_ball_point [(0, 0), (0, 1)] (0, 1) 1 = [0, 1]"
  by (simp_all add: query_ball_point_def)

lemma example_query_half:
  "query_ball_point [(0, 0), (0, 1)] (0, 0) (1 / 2) = [0]"
  "query_ball_point [(0, 0), (0, 1)] (0, 1) (1 / 2) = [1]"
  by (simp_all add: query_ball_point_def power2_eq_square)

lemma example_count_between_1:
  "count_between example_adata (Some ''cell_type'') use_het 1 =
     Inr (example_adata\<lparr>obsm := (obsm example_adata)(use_het \<mapsto> HetCounts [1, 1])\<rparr>)"
  by (simp add: count_between_def example_coor example_names count_neighbours_def
      example_query_1 example_frame example_cell_types_AB bindE_def)

lemma example_count_between_half:
  "count_between example_adata (Some ''cell_type'') use_het (1 / 2) =
     Inr (example_adata\<lparr>obsm := (obsm example_adata)(use_het \<mapsto> HetCounts [0, 1])\<rparr>)"
  by (simp add: count_between_def example_coor example_names count_neighbours_def
      example_query_half example_frame example_cell_types_A example_cell_types_B bindE_def)

subsection \<open>The default neighbour distance\<close>

text \<open>
  Claim C9. When \<open>count\<close> is called without a distance, and the first library of the spatial
  metadata has the diameter \<open>spot_diameter_fullres\<close> and the scale factor of its image
  quality, then the distance is the diameter times the scale factor times 2, and \<open>count\<close>
  is the between-spot counting in which the range query of every spot \<open>k\<close> is
  \<open>query_ball_point\<close> around the coordinates of \<open>k\<close> with exactly that radius: the barcodes it
  returns are the neighbours whose cell types are counted and stored for \<open>k\<close>.
\<close>

theorem default_neighbour_distance:
  assumes lib: "first_library adata = Inr (library_id, lib)"
    and sf: "scalefactors lib = Some sf"
    and d: "sf ''spot_diameter_fullres'' = Some diameter"
    and q: "use_quality lib = Some q"
    and s: "sf (''tissue_'' @ q @ ''_scalef'') = Some scalef"
  shows "count_distance lib None = Inr (diameter * scalef * 2) \<and>
    count adata use_label use_het verbose None =
      bindE (coor adata) (\<lambda>pts.
      bindE (mapE (\<lambda>k.
               bindE (if k < length pts
                      then take_idx (obs_names adata)
                             (query_ball_point pts (pts ! k) (diameter * scalef * 2))
                      else Inl KeyError) (\<lambda>neighbours.
               bindE (get_frame adata use_label) (\<lambda>df.
                 count_cell_types_in df neighbours)))
             [0 ..< length (obs_names adata)]) (\<lambda>counts_ct.
        Inr (adata\<lparr>obsm := (obsm adata)(use_het \<mapsto> HetCounts counts_ct)\<rparr>,
             if verbose then [count_message use_het] else []))) \<and>
    (\<forall>adata' msgs.
       count adata use_label use_het verbose None = Inr (adata', msgs) \<longrightarrow>
       (\<exists>pts cs. coor adata = Inr pts \<and> obsm adata' use_het = Some (HetCounts cs) \<and>
          length cs = length (obs_names adata) \<and>
          (\<forall>k<length (obs_names adata).
             \<exists>ns df. take_idx (obs_names adata)
                        (query_ball_point pts (pts ! k) (diameter * scalef * 2)) = Inr ns \<and>
                get_frame adata use_label = Inr df \<and>
                count_cell_types_in df ns = Inr (cs ! k))))"
proof (intro conjI allI impI)
  show cd: "count_distance lib None = Inr (diameter * scalef * 2)"
    using s by (simp add: count_distance_def default_distance_def sf d q)
  show "count adata use_label use_het verbose None =
      bindE (coor adata) (\<lambda>pts.
      bindE (mapE (\<lambda>k.
               bindE (if k < length pts
                      then take_idx (obs_names adata)
                             (query_ball_point pts (pts ! k) (diameter * scalef * 2))
                      else Inl KeyError) (\<lambda>neighbours.
               bindE (get_frame adata use_label) (\<lambda>df.
                 count_cell_types_in df neighbours)))
             [0 ..< length (obs_names adata)]) (\<lambda>counts_ct.
        Inr (adata\<lparr>obsm := (obsm adata)(use_het \<mapsto> HetCounts counts_ct)\<rparr>,
             if verbose then [count_message use_het] else [])))"
    by (simp add: count_def lib cd count_between_def count_neighbours_def bindE_def
        split: sum.splits)
next
  fix adata' msgs
  assume c: "count adata use_label use_het verbose None = Inr (adata', msgs)"
  from count_Inr_between[OF c] lib obtain r where
    r: "count_distance lib None = Inr r" and
    b: "count_between adata use_label use_het r = Inr adata'"
    by auto
  have cd: "count_distance lib None = Inr (diameter * scalef * 2)"
    using s by (simp add: count_distance_def default_distance_def sf d q)
  with r have "r = diameter * scalef * 2" by simp
  with count_between_Inr[OF b]
  show "\<exists>pts cs. coor adata = Inr pts \<and> obsm adata' use_het = Some (HetCounts cs) \<and>
          length cs = length (obs_names adata) \<and>
          (\<forall>k<length (obs_names adata).
             \<exists>ns df. take_idx (obs_names adata)
                        (query_ball_point pts (pts ! k) (diameter * scalef * 2)) = Inr ns \<and>
                get_frame adata use_label = Inr df \<and>
                count_cell_types_in df ns = Inr (cs ! k))"
    by fastforce
qed

theorem default_neighbour_distance_witness:
  "count_distance
     \<lparr>scalefactors = Some [''spot_diameter_fullres'' \<mapsto> 1, ''tissue_hires_scalef'' \<mapsto> 1 / 2],
      use_quality = Some ''hires''\<rparr> None = Inr 1 \<and>
   count example_adata (Some ''cell_type'') ''cci_het'' False None =
     Inr (example_adata\<lparr>obsm := (obsm example_adata)(''cci_het'' \<mapsto> HetCounts [1, 1])\<rparr>, [])"
proof -
  note t = default_neighbour_distance[OF example_library, of
      "[''spot_diameter_fullres'' \<mapsto> 1, ''tissue_hires_scalef'' \<mapsto> 1 / 2]" 1 "''hires''" "1 / 2"
      "Some ''cell_type''" "''cci_het''" False]
  from t have a: "count_distance
     \<lparr>scalefactors = Some [''spot_diameter_fullres'' \<mapsto> 1, ''tissue_hires_scalef'' \<mapsto> 1 / 2],
      use_quality = Some ''hires''\<rparr> None = Inr 1"
    by simp
  from t have b: "count example_adata (Some ''cell_type'') ''cci_het'' False None =
     Inr (example_adata\<lparr>obsm := (obsm example_adata)(''cci_het'' \<mapsto> HetCounts [1, 1])\<rparr>, [])"
    by (simp add: example_coor example_names example_query_1 example_frame
        example_cell_types_AB bindE_def)
  from a b show ?thesis by simp
qed

subsection \<open>Neighbour sets\<close>

lemma grid_neighbours_excludes_self:
  "0 < radius \<Longrightarrow> n \<notin> set (grid_neighbours num_row num_col radius n)"
  by (simp add: grid_neighbours_def Let_def)

lemma grid_neighbours_radius_0:
  assumes R: "0 < num_row" and C: "0 < num_col" and n: "0 \<le> n" "n < num_row * num_col"
  shows "grid_neighbours num_row num_col 0 n = [n]"
proof -
  have row: "0 \<le> n mod num_row" "n mod num_row < num_row" using R by simp_all
  have col0: "0 \<le> n div num_row" using R n by (simp add: pos_imp_zdiv_nonneg_iff)
  have col1: "n div num_row < num_col"
  proof (rule ccontr)
    assume "\<not> n div num_row < num_col"
    then have "num_col \<le> n div num_row" by simp
    with R have "num_row * num_col \<le> num_row * (n div num_row)"
      by (simp add: mult_left_mono)
    also have "\<dots> \<le> n"
    proof -
      have "n = num_row * (n div num_row) + n mod num_row" by simp
      with row(1) show ?thesis by linarith
    qed
    finally show False using n by simp
  qed
  have eq: "n div num_row * num_row + n mod num_row = n" by simp
  show ?thesis
    using row col0 col1 eq n by (simp add: grid_neighbours_def nb_matrix_def Let_def)
qed

lemma create_grids_neighbours:
  "create_grids adata num_row num_col radius = Inr res \<Longrightarrow>
   neighbours res = map (grid_neighbours num_row num_col radius) [0 .. num_row * num_col - 1]"
  by (auto simp: create_grids_def bindE_def Let_def split: sum.splits if_splits)

text \<open>
  Claim C7, amended. In \<open>create_grids\<close>, for a positive radius the neighbour list of a grid
  does not contain the grid itself, and for radius 0 it is the grid itself alone. In
  \<open>count\<close>, called with a distance other than 0, the count stored for spot \<open>i\<close> is computed
  from the barcodes the range query around \<open>i\<close> returns, and for a radius that is not
  negative the barcode of \<open>i\<close> itself is among them; with distance 0 no range query is made
  and the cell types are counted within each spot.
\<close>

theorem neighbour_sets_of_grids_and_spots:
  "(create_grids adata num_row num_col radius = Inr res \<longrightarrow> 0 < num_row \<longrightarrow> 0 < num_col \<longrightarrow>
      k < length (neighbours res) \<longrightarrow>
        (0 < radius \<longrightarrow> int k \<notin> set (neighbours res ! k)) \<and>
        (radius = 0 \<longrightarrow> neighbours res ! k = [int k])) \<and>
   (count adata use_label use_het verbose distance = Inr (adata', msgs) \<longrightarrow>
      distance \<noteq> Some 0 \<longrightarrow>
      (\<exists>library_id lib r pts cs.
         first_library adata = Inr (library_id, lib) \<and>
         count_distance lib distance = Inr r \<and>
         coor adata = Inr pts \<and>
         obsm adata' use_het = Some (HetCounts cs) \<and>
         length cs = length (obs_names adata) \<and>
         (\<forall>i<length (obs_names adata).
            \<exists>ns df. take_idx (obs_names adata) (query_ball_point pts (pts ! i) r) = Inr ns \<and>
               (0 \<le> r \<longrightarrow> obs_names adata ! i \<in> set ns) \<and>
               get_frame adata use_label = Inr df \<and>
               count_cell_types_in df ns = Inr (cs ! i)))) \<and>
   count adata use_label use_het verbose (Some 0) =
     bindE (first_library adata) (\<lambda>l.
       bindE (count_within adata use_label use_het) (\<lambda>adata'.
         Inr (adata', if verbose then [count_message use_het] else [])))"
proof (intro conjI impI)
  assume cg: "create_grids adata num_row num_col radius = Inr res"
    and R: "0 < num_row" and C: "0 < num_col" and k: "k < length (neighbours res)"
  note nb = create_grids_neighbours[OF cg]
  from k nb have k': "int k < num_row * num_col" by simp
  then have nth: "[0 .. num_row * num_col - 1] ! k = int k" by (simp add: nth_upto)
  from k nb have kl: "k < length [0 .. num_row * num_col - 1]" by simp
  have el: "neighbours res ! k = grid_neighbours num_row num_col radius (int k)"
    unfolding nb using kl nth by (simp only: nth_map)
  { assume "0 < radius"
    then show "int k \<notin> set (neighbours res ! k)"
      unfolding el by (rule grid_neighbours_excludes_self) }
  { assume "radius = 0"
    then show "neighbours res ! k = [int k]"
      unfolding el using grid_neighbours_radius_0[OF R C _ k'] by simp }
next
  assume c: "count adata use_label use_het verbose distance = Inr (adata', msgs)"
    and d: "distance \<noteq> Some 0"
  from count_Inr_between[OF c d] obtain library_id lib r where
    l: "first_library adata = Inr (library_id, lib)" and
    r: "count_distance lib distance = Inr r" and
    b: "count_between adata use_label use_het r = Inr adata'"
    by blast
  from count_between_Inr[OF b] obtain pts cs where
    p: "coor adata = Inr pts" and
    a: "adata' = adata\<lparr>obsm := (obsm adata)(use_het \<mapsto> HetCounts cs)\<rparr>" and
    n: "length cs = length (obs_names adata)" and
    e: "\<forall>k<length (obs_names adata). k < length pts \<and>
       (\<exists>ns df. take_idx (obs_names adata) (query_ball_point pts (pts ! k) r) = Inr ns \<and>
          (0 \<le> r \<longrightarrow> obs_names adata ! k \<in> set ns) \<and>
          get_frame adata use_label = Inr df \<and>
          count_cell_types_in df ns = Inr (cs ! k))"
    by blast
  from a have o: "obsm adata' use_het = Some (HetCounts cs)" by simp
  from e have e': "\<forall>i<length (obs_names adata).
            \<exists>ns df. take_idx (obs_names adata) (query_ball_point pts (pts ! i) r) = Inr ns \<and>
               (0 \<le> r \<longrightarrow> obs_names adata ! i \<in> set ns) \<and>
               get_frame adata use_label = Inr df \<and>
               count_cell_types_in df ns = Inr (cs ! i)"
    by blast
  from l r p o n e'
  show "\<exists>library_id lib r pts cs.
         first_library adata = Inr (library_id, lib) \<and>
         count_distance lib distance = Inr r \<and>
         coor adata = Inr pts \<and>
         obsm adata' use_het = Some (HetCounts cs) \<and>
         length cs = length (obs_names adata) \<and>
         (\<forall>i<length (obs_names adata).
            \<exists>ns df. take_idx (obs_names adata) (query_ball_point pts (pts ! i) r) = Inr ns \<and>
               (0 \<le> r \<longrightarrow> obs_names adata ! i \<in> set ns) \<and>
               get_frame adata use_label = Inr df \<and>
               count_cell_types_in df ns = Inr (cs ! i))"
    by blast
next
  show "count adata use_label use_het verbose (Some 0) =
     bindE (first_library adata) (\<lambda>l.
       bindE (count_within adata use_label use_het) (\<lambda>adata'.
         Inr (adata', if verbose then [count_message use_het] else [])))"
    by (simp add: count_def bindE_def split: sum.splits prod.splits)
qed

lemma example_count_half:
  "count example_adata (Some ''cell_type'') ''cci_het'' False (Some (1 / 2)) =
     Inr (example_adata\<lparr>obsm := (obsm example_adata)(''cci_het'' \<mapsto> HetCounts [0, 1])\<rparr>, [])"
  by (simp add: count_def example_library count_distance_def example_count_between_half
      bindE_def)

text \<open>On the small dataset with the positive distance one half, the range query around
  spot \<open>B\<close> returns \<open>B\<close> alone, and \<open>count\<close> stores the count 1 for \<open>B\<close>, which comes from the
  cell type of \<open>B\<close> itself: the neighbour set of a spot contains the spot.\<close>

theorem count_includes_query_spot_counterexample:
  "(0::real) < 1 / 2 \<and>
   coor example_adata = Inr [(0, 0), (0, 1)] \<and>
   obs_names example_adata ! 1 = ''B'' \<and>
   query_ball_point [(0, 0), (0, 1)] ([(0, 0), (0, 1)] ! 1) (1 / 2) = [1] \<and>
   take_idx (obs_names example_adata) [1] = Inr [''B''] \<and>
   count example_adata (Some ''cell_type'') ''cci_het'' False (Some (1 / 2)) =
     Inr (example_adata\<lparr>obsm := (obsm example_adata)(''cci_het'' \<mapsto> HetCounts [0, 1])\<rparr>, [])"
  using example_count_half example_coor example_query_half
  by (simp add: example_names bindE_def)

lemma upto_0_3: "[0 .. 3::int] = [0, 1, 2, 3]"
  by code_simp

lemma create_grids_example:
  "\<exists>res. create_grids example_adata 2 2 1 = Inr res \<and> length (neighbours res) = 4"
  by (simp add: create_grids_def example_coor bindE_def Let_def upto_0_3)

theorem neighbour_sets_of_grids_and_spots_witness:
  "(\<exists>res. create_grids example_adata 2 2 1 = Inr res \<and> 0 \<notin> set (neighbours res ! 0)) \<and>
   (\<exists>pts cs ns. coor example_adata = Inr pts \<and>
      take_idx (obs_names example_adata) (query_ball_point pts (pts ! 1) (1 / 2)) = Inr ns \<and>
      ''B'' \<in> set ns)"
proof -
  from create_grids_example obtain res where
    r: "create_grids example_adata 2 2 1 = Inr res" "length (neighbours res) = 4"
    by blast
  note t = neighbour_sets_of_grids_and_spots[of example_adata 2 2 1 res 0
      "Some ''cell_type''" "''cci_het''" False "Some (1 / 2)"
      "example_adata\<lparr>obsm := (obsm example_adata)(''cci_het'' \<mapsto> HetCounts [0, 1])\<rparr>" "[]"]
  note t1 = t[THEN conjunct1]
  note t2 = t[THEN conjunct2, THEN conjunct1]
  from t1 r have "0 \<notin> set (neighbours res ! 0)" by simp
  with r have a: "\<exists>res. create_grids example_adata 2 2 1 = Inr res \<and> 0 \<notin> set (neighbours res ! 0)"
    by blast
  have ne: "Some (1 / 2 :: real) \<noteq> Some 0" by simp
  from t2[rule_format, OF example_count_half ne] obtain library_id lib r pts cs where
    f: "count_distance lib (Some (1 / 2)) = Inr r" "coor example_adata = Inr pts"
    and e: "\<forall>i<length (obs_names example_adata).
            \<exists>ns df. take_idx (obs_names example_adata) (query_ball_point pts (pts ! i) r) = Inr ns \<and>
               (0 \<le> r \<longrightarrow> obs_names example_adata ! i \<in> set ns) \<and>
               get_frame example_adata (Some ''cell_type'') = Inr df \<and>
               count_cell_types_in df ns = Inr (cs ! i)"
    by blast
  from f(1) have rr: "r = 1 / 2" by (simp add: count_distance_def)
  have "(1::nat) < length (obs_names example_adata)" by (simp add: example_names)
  with e obtain ns where
    ns: "take_idx (obs_names example_adata) (query_ball_point pts (pts ! 1) r) = Inr ns"
      "0 \<le> r \<longrightarrow> obs_names example_adata ! 1 \<in> set ns"
    by blast
  from ns(2) rr have "''B'' \<in> set ns" by (simp add: example_names)
  with ns(1) rr f(2) have b: "\<exists>pts cs ns. coor example_adata = Inr pts \<and>
      take_idx (obs_names example_adata) (query_ball_point pts (pts ! 1) (1 / 2)) = Inr ns \<and>
      ''B'' \<in> set ns"
    by blast
  from a b show ?thesis by blast
qed

subsection \<open>The two paths of the mixture mode\<close>

lemma mapE_all_Inr:
  "(\<And>x. x \<in> set xs \<Longrightarrow> f x = Inr (g x)) \<Longrightarrow> mapE f xs = Inr (map g xs)"
  by (induction xs) (auto simp: bindE_def)

lemma neighbourhoods_in_range:
  assumes "\<forall>i \<in> set spot_indices. i < length neighs \<and> i < length (obs_names adata) \<and>
      (\<forall>j \<in> set (neighs ! i). j < length (obs_names adata))"
  shows "neighbourhoods adata neighs spot_indices =
     Inr (map (\<lambda>i. (obs_names adata ! i, map (\<lambda>j. obs_names adata ! j) (neighs ! i))) spot_indices,
          map (\<lambda>i. (i, neighs ! i)) spot_indices)"
proof -
  have "mapE (\<lambda>spot_i.
              if spot_i < length neighs \<and> spot_i < length (obs_names adata)
              then bindE (take_idx (obs_names adata) (neighs ! spot_i)) (\<lambda>bcs.
                     Inr ((obs_names adata ! spot_i, bcs), (spot_i, neighs ! spot_i)))
              else Inl IndexError) spot_indices
     = Inr (map (\<lambda>i. ((obs_names adata ! i, map (\<lambda>j. obs_names adata ! j) (neighs ! i)),
                       (i, neighs ! i))) spot_indices)"
  proof (rule mapE_all_Inr)
    fix x assume "x \<in> set spot_indices"
    with assms have x: "x < length neighs" "x < length (obs_names adata)"
      "\<forall>j \<in> set (neighs ! x). j < length (obs_names adata)" by auto
    from take_idx_in_range[OF x(3)] x(1,2)
    show "(if x < length neighs \<and> x < length (obs_names adata)
           then bindE (take_idx (obs_names adata) (neighs ! x)) (\<lambda>bcs.
                  Inr ((obs_names adata ! x, bcs), (x, neighs ! x)))
           else Inl IndexError)
        = Inr ((obs_names adata ! x, map (\<lambda>j. obs_names adata ! j) (neighs ! x)), (x, neighs ! x))"
      by (simp add: bindE_def)
  qed
  then show ?thesis
    by (simp add: neighbourhoods_def bindE_def o_def)
qed

lemma within_spot_iff:
  "within_spot (map (\<lambda>i. (i, neighs ! i)) spot_indices) = (\<forall>i \<in> set spot_indices. i \<in> set (neighs ! i))"
  by (simp add: within_spot_def list_all_iff)

lemma set_true_fold_nth:
  "k < length bs \<Longrightarrow>
   fold (\<lambda>i bs. bs[i := True]) js bs ! k = (bs ! k \<or> k \<in> set js)"
proof (induction js arbitrary: bs)
  case Nil
  then show ?case by simp
next
  case (Cons a js)
  from Cons.prems have l: "k < length (bs[a := True])" by simp
  have "bs[a := True] ! k = (bs ! k \<or> k = a)"
    using Cons.prems by (cases "k = a") simp_all
  with Cons.IH[OF l] show ?case by auto
qed

lemma set_true_fold_length:
  "length (fold (\<lambda>i bs. bs[i := True]) js bs) = length bs"
  by (induction js arbitrary: bs) auto

lemma set_true_in_range:
  assumes "\<forall>i \<in> set js. i < n"
  shows "\<exists>bs. set_true n js = Inr bs \<and> length bs = n \<and> (\<forall>k<n. bs ! k = (k \<in> set js))"
  using assms
  by (simp add: set_true_def list_all_iff set_true_fold_length set_true_fold_nth)

lemma length_filter_nth:
  "length (filter (\<lambda>i. P (xs ! i)) [0 ..< length xs]) = length (filter P xs)"
proof -
  have "filter P xs = filter P (map (\<lambda>i. xs ! i) [0 ..< length xs])"
    by (simp add: map_nth)
  also have "\<dots> = map (\<lambda>i. xs ! i) (filter (\<lambda>i. P (xs ! i)) [0 ..< length xs])"
    by (simp add: filter_map o_def)
  finally show ?thesis by simp
qed

lemma sum_bool_pos: "(0 < sum_bool (map P row)) = (\<exists>v \<in> set row. P v)"
  by (auto simp: sum_bool_def filter_map o_def filter_empty_conv)

lemma mask_select_nth:
  assumes "length xs = length bs"
  shows "map fst (filter snd (zip xs bs))
     = map (\<lambda>k. xs ! k) (filter (\<lambda>k. bs ! k) [0 ..< length xs])"
proof -
  have z: "zip xs bs = map (\<lambda>k. (xs ! k, bs ! k)) [0 ..< length xs]"
    using assms by (intro nth_equalityI) simp_all
  show ?thesis
    unfolding z by (simp add: filter_map o_def)
qed

lemma within_spot_edges_exact:
  assumes frame: "get_frame adata (Some uns_key) = Inr df"
    and cols: "loc_columns df ls = Inr props"
    and nrows: "length (rows props) = length nb"
    and rng: "\<forall>i \<in> set spot_indices. i < length nb"
    and names: "length nb \<le> length (obs_names adata)"
    and Q: "qs = filter (\<lambda>k. k \<in> set spot_indices \<and> nb ! k) [0 ..< length nb]"
  shows "within_spot_edges adata uns_key spot_indices nb ls cutoff =
      Inr (map (\<lambda>i. SpotItem (obs_names adata ! i))
             (filter (\<lambda>i. \<exists>v \<in> set (rows props ! (qs ! i)). cutoff < v) [0 ..< length qs])) \<and>
    length (filter (\<lambda>i. \<exists>v \<in> set (rows props ! (qs ! i)). cutoff < v) [0 ..< length qs])
      = length (filter (\<lambda>k. k \<in> set spot_indices \<and> nb ! k \<and>
                              (\<exists>v \<in> set (rows props ! k). cutoff < v)) [0 ..< length nb])"
proof -
  let ?n = "length nb"
  let ?cnt = "\<lambda>row. sum_bool (map (\<lambda>v. v > cutoff) row)"
  let ?P = "\<lambda>k. \<exists>v \<in> set (rows props ! k). cutoff < v"
  from set_true_in_range[OF rng] obtain bs where
    bs: "set_true ?n spot_indices = Inr bs" "length bs = ?n" "\<forall>k<?n. bs ! k = (k \<in> set spot_indices)"
    by blast
  let ?spots = "map (\<lambda>(a, b). a \<and> b) (zip bs nb)"
  have ls: "length ?spots = ?n" using bs(2) by simp
  have bi: "bool_index (rows props) ?spots = Inr (map fst (filter snd (zip (rows props) ?spots)))"
    using ls nrows by (simp add: bool_index_def)
  have fq: "filter (\<lambda>k. ?spots ! k) [0 ..< length (rows props)] = qs"
    unfolding Q nrows
  proof (rule filter_cong[OF refl])
    fix k assume "k \<in> set [0 ..< ?n]"
    then have "k < ?n" by simp
    then show "?spots ! k = (k \<in> set spot_indices \<and> nb ! k)"
      using bs(2,3) by simp
  qed
  have sel: "map fst (filter snd (zip (rows props) ?spots)) = map (\<lambda>k. rows props ! k) qs"
    using mask_select_nth[of "rows props" ?spots] ls nrows fq by simp
  let ?counts = "map ?cnt (map (\<lambda>k. rows props ! k) qs)"
  have ii: "filter (\<lambda>i. ?counts ! i > 0) [0 ..< length ?counts]
      = filter (\<lambda>i. ?P (qs ! i)) [0 ..< length qs]"
  proof (rule filter_cong)
    show "[0 ..< length ?counts] = [0 ..< length qs]" by simp
  next
    fix i assume "i \<in> set [0 ..< length qs]"
    then have "i < length qs" by simp
    then show "(?counts ! i > 0) = ?P (qs ! i)" by (simp add: sum_bool_pos)
  qed
  have lq: "length qs \<le> ?n"
  proof -
    have "length qs \<le> length [0 ..< ?n]" unfolding Q by (rule length_filter_le)
    then show ?thesis by simp
  qed
  have "\<forall>i \<in> set (filter (\<lambda>i. ?P (qs ! i)) [0 ..< length qs]). i < length (obs_names adata)"
  proof
    fix i assume "i \<in> set (filter (\<lambda>i. ?P (qs ! i)) [0 ..< length qs])"
    then have "i < length qs" by simp
    with lq names show "i < length (obs_names adata)" by linarith
  qed
  then have ti: "take_idx (obs_names adata) (filter (\<lambda>i. ?P (qs ! i)) [0 ..< length qs])
      = Inr (map (\<lambda>i. obs_names adata ! i) (filter (\<lambda>i. ?P (qs ! i)) [0 ..< length qs]))"
    by (rule take_idx_in_range)
  have res: "within_spot_edges adata uns_key spot_indices nb ls cutoff
      = Inr (map SpotItem (map (\<lambda>i. obs_names adata ! i)
               (filter (\<lambda>i. ?P (qs ! i)) [0 ..< length qs])))"
    unfolding within_spot_edges_def bs(1) frame cols bindE_def sum.case Let_def bi sel ii ti
    by (rule refl)
  have "length (filter (\<lambda>i. ?P (qs ! i)) [0 ..< length qs]) = length (filter ?P qs)"
    by (rule length_filter_nth)
  also have "\<dots> = length (filter (\<lambda>k. k \<in> set spot_indices \<and> nb ! k \<and> ?P k) [0 ..< ?n])"
    unfolding Q by (simp add: conj_commute conj_left_commute)
  finally have len: "length (filter (\<lambda>i. ?P (qs ! i)) [0 ..< length qs])
      = length (filter (\<lambda>k. k \<in> set spot_indices \<and> nb ! k \<and> ?P k) [0 ..< ?n])" .
  from res len show ?thesis by (simp add: o_def)
qed

text \<open>
  Claim C2. In mixture mode, with spot indices given and in range, and with neighbour
  lists that contain a spot only when it is its own sole neighbour (the invariant of the
  neighbour sets, and the comment of line 255), \<open>count_core\<close> takes the per-spot rule exactly
  when every enumerated spot is its own sole neighbour, and otherwise builds the pairwise
  edges with \<open>get_between_spot_edge_array\<close>. The per-spot rule selects the enumerated spots
  that satisfy \<open>neigh_bool\<close>, in the order of their positions \<open>qs\<close>, and returns one entry
  for every selected spot whose proportion exceeds the cutoff for some label of the label
  set; so the number of entries is the number of such spots. The entry for the selected
  spot of rank \<open>i\<close> is the barcode at position \<open>i\<close> of \<open>obs_names\<close> (lines 269 and 270), not
  the barcode at position \<open>qs ! i\<close>.
\<close>

theorem count_core_mixture_paths:
  assumes ne: "spot_indices \<noteq> []"
    and mix: "uns adata (snd (label_keys use_label)) \<noteq> None"
    and labels: "(case label_set of
                    None \<Rightarrow> bindE (obs_labels adata (fst (label_keys use_label)))
                              (\<lambda>ls. Inr (np_unique ls))
                  | Some ls \<Rightarrow> Inr ls) = Inr ls"
    and nb: "nb = (case neigh_bool of
                     None \<Rightarrow> replicate (length (obs_names adata)) True
                   | Some b \<Rightarrow> b)"
    and rng: "\<forall>i \<in> set spot_indices. i < length neighs \<and> i < length (obs_names adata) \<and>
                (\<forall>j \<in> set (neighs ! i). j < length (obs_names adata))"
    and inv: "\<forall>i \<in> set spot_indices. i \<in> set (neighs ! i) \<longrightarrow> neighs ! i = [i]"
  shows "count_core adata use_label neighs (Some spot_indices) neigh_bool label_set True cutoff
           return_edges =
     (if \<forall>i \<in> set spot_indices. neighs ! i = [i]
      then bindE (within_spot_edges adata (snd (label_keys use_label)) spot_indices nb ls cutoff)
             (\<lambda>edge_list. Inr (if return_edges then Edges edge_list
                                else Count (length edge_list)))
      else bindE (get_frame adata (Some (snd (label_keys use_label)))) (\<lambda>df.
           bindE (loc_columns df ls) (\<lambda>prop_vals.
           bindE (get_between_spot_edge_array
                    (map (\<lambda>i. (obs_names adata ! i, map (\<lambda>j. obs_names adata ! j) (neighs ! i)))
                       spot_indices)
                    (map (\<lambda>i. (i, neighs ! i)) spot_indices) nb True (Some prop_vals) cutoff
                    True)
             (\<lambda>es. Inr (if return_edges then Edges (map PairItem es)
                         else Count (length es)))))) \<and>
    (\<forall>df props qs.
       get_frame adata (Some (snd (label_keys use_label))) = Inr df \<longrightarrow>
       loc_columns df ls = Inr props \<longrightarrow> length (rows props) = length nb \<longrightarrow>
       (\<forall>i \<in> set spot_indices. i < length nb) \<longrightarrow> length nb \<le> length (obs_names adata) \<longrightarrow>
       qs = filter (\<lambda>k. k \<in> set spot_indices \<and> nb ! k) [0 ..< length nb] \<longrightarrow>
       within_spot_edges adata (snd (label_keys use_label)) spot_indices nb ls cutoff
         = Inr (map (\<lambda>i. SpotItem (obs_names adata ! i))
                  (filter (\<lambda>i. \<exists>v \<in> set (rows props ! (qs ! i)). cutoff < v)
                     [0 ..< length qs])) \<and>
       length (filter (\<lambda>i. \<exists>v \<in> set (rows props ! (qs ! i)). cutoff < v) [0 ..< length qs])
         = length (filter (\<lambda>k. k \<in> set spot_indices \<and> nb ! k \<and>
                                 (\<exists>v \<in> set (rows props ! k). cutoff < v))
                     [0 ..< length nb]))"
proof -
  let ?within = "bindE (within_spot_edges adata (snd (label_keys use_label)) spot_indices nb ls cutoff)
             (\<lambda>edge_list. Inr (if return_edges then Edges edge_list
                                else Count (length edge_list)))"
  note nh = neighbourhoods_in_range[OF rng]
  have test: "(\<forall>i \<in> set spot_indices. i \<in> set (neighs ! i))
      = (\<forall>i \<in> set spot_indices. neighs ! i = [i])"
  proof
    assume a: "\<forall>i \<in> set spot_indices. i \<in> set (neighs ! i)"
    show "\<forall>i \<in> set spot_indices. neighs ! i = [i]"
    proof
      fix i assume i: "i \<in> set spot_indices"
      with a have "i \<in> set (neighs ! i)" by (rule bspec)
      with inv i show "neighs ! i = [i]" by simp
    qed
  next
    assume a: "\<forall>i \<in> set spot_indices. neighs ! i = [i]"
    show "\<forall>i \<in> set spot_indices. i \<in> set (neighs ! i)"
    proof
      fix i assume "i \<in> set spot_indices"
      with a have "neighs ! i = [i]" by (rule bspec)
      then show "i \<in> set (neighs ! i)" by simp
    qed
  qed
  have main: "count_core adata use_label neighs (Some spot_indices) neigh_bool label_set True cutoff
           return_edges =
     (if \<forall>i \<in> set spot_indices. i \<in> set (neighs ! i)
      then ?within
      else bindE (get_frame adata (Some (snd (label_keys use_label)))) (\<lambda>df.
           bindE (loc_columns df ls) (\<lambda>prop_vals.
           bindE (get_between_spot_edge_array
                    (map (\<lambda>i. (obs_names adata ! i, map (\<lambda>j. obs_names adata ! j) (neighs ! i)))
                       spot_indices)
                    (map (\<lambda>i. (i, neighs ! i)) spot_indices) nb True (Some prop_vals) cutoff
                    True)
             (\<lambda>es. Inr (if return_edges then Edges (map PairItem es)
                         else Count (length es))))))"
    using ne mix
    by (simp add: count_core_def Let_def labels nb[symmetric] nh within_spot_iff bindE_def
        split: sum.splits)
  have rule: "within_spot_edges adata (snd (label_keys use_label)) spot_indices nb ls cutoff
         = Inr (map (\<lambda>i. SpotItem (obs_names adata ! i))
                  (filter (\<lambda>i. \<exists>v \<in> set (rows props ! (qs ! i)). cutoff < v)
                     [0 ..< length qs])) \<and>
       length (filter (\<lambda>i. \<exists>v \<in> set (rows props ! (qs ! i)). cutoff < v) [0 ..< length qs])
         = length (filter (\<lambda>k. k \<in> set spot_indices \<and> nb ! k \<and>
                                 (\<exists>v \<in> set (rows props ! k). cutoff < v))
                     [0 ..< length nb])"
    if "get_frame adata (Some (snd (label_keys use_label))) = Inr df"
      "loc_columns df ls = Inr props" "length (rows props) = length nb"
      "\<forall>i \<in> set spot_indices. i < length nb" "length nb \<le> length (obs_names adata)"
      "qs = filter (\<lambda>k. k \<in> set spot_indices \<and> nb ! k) [0 ..< length nb]"
    for df props qs
    using that by (rule within_spot_edges_exact)
  show ?thesis
  proof (rule conjI)
    from main show "count_core adata use_label neighs (Some spot_indices) neigh_bool label_set
           True cutoff return_edges =
     (if \<forall>i \<in> set spot_indices. neighs ! i = [i]
      then ?within
      else bindE (get_frame adata (Some (snd (label_keys use_label)))) (\<lambda>df.
           bindE (loc_columns df ls) (\<lambda>prop_vals.
           bindE (get_between_spot_edge_array
                    (map (\<lambda>i. (obs_names adata ! i, map (\<lambda>j. obs_names adata ! j) (neighs ! i)))
                       spot_indices)
                    (map (\<lambda>i. (i, neighs ! i)) spot_indices) nb True (Some prop_vals) cutoff
                    True)
             (\<lambda>es. Inr (if return_edges then Edges (map PairItem es)
                         else Count (length es))))))"
      unfolding test .
  next
    show "\<forall>df props qs.
       get_frame adata (Some (snd (label_keys use_label))) = Inr df \<longrightarrow>
       loc_columns df ls = Inr props \<longrightarrow> length (rows props) = length nb \<longrightarrow>
       (\<forall>i \<in> set spot_indices. i < length nb) \<longrightarrow> length nb \<le> length (obs_names adata) \<longrightarrow>
       qs = filter (\<lambda>k. k \<in> set spot_indices \<and> nb ! k) [0 ..< length nb] \<longrightarrow>
       within_spot_edges adata (snd (label_keys use_label)) spot_indices nb ls cutoff
         = Inr (map (\<lambda>i. SpotItem (obs_names adata ! i))
                  (filter (\<lambda>i. \<exists>v \<in> set (rows props ! (qs ! i)). cutoff < v)
                     [0 ..< length qs])) \<and>
       length (filter (\<lambda>i. \<exists>v \<in> set (rows props ! (qs ! i)). cutoff < v) [0 ..< length qs])
         = length (filter (\<lambda>k. k \<in> set spot_indices \<and> nb ! k \<and>
                                 (\<exists>v \<in> set (rows props ! k). cutoff < v))
                     [0 ..< length nb])"
      by (intro allI impI) (rule rule)
  qed
qed

lemma example_between:
  "get_between_spot_edge_array [(''A'', [''B''])] [(0, [1])] [True, True] True
     (Some \<lparr>ncols = 1, rows = [[1 / 10], [1 / 2]]\<rparr>) (1 / 5) True = Inr [(''A'', ''B'')]"
  by (simp add: get_between_spot_edge_array_def interact_neighs_def bindE_def
      bool_index_def sum_bool_def unique_edges_def unique_step_def mark_added_def
      same_edge_def)

theorem count_core_mixture_paths_witness:
  "count_core example_adata ''cell_type'' [[0], [1]] (Some [1]) (Some [True, True])
     (Some [''T'']) True (1 / 5) True = Inr (Edges [SpotItem ''A'']) \<and>
   count_core example_adata ''cell_type'' [[0], [1]] (Some [0, 1]) (Some [True, True])
     (Some [''T'']) True (1 / 5) False = Inr (Count 1) \<and>
   count_core example_adata ''cell_type'' [[1], [0]] (Some [0]) (Some [True, True])
     (Some [''T'']) True (1 / 5) True = Inr (Edges [PairItem (''A'', ''B'')])"
proof -
  have u: "uns example_adata (snd (label_keys ''cell_type'')) \<noteq> None"
    by (simp add: example_adata_def label_keys_def)
  have k: "snd (label_keys ''cell_type'') = ''cell_type''"
    by (simp add: label_keys_def)
  have l: "(case Some [''T''] of
              None \<Rightarrow> bindE (obs_labels example_adata (fst (label_keys ''cell_type'')))
                        (\<lambda>ls. Inr (np_unique ls))
            | Some ls \<Rightarrow> Inr ls) = Inr [''T'']"
    by simp
  have n: "[True, True] = (case Some [True, True] of
                     None \<Rightarrow> replicate (length (obs_names example_adata)) True
                   | Some b \<Rightarrow> b)"
    by simp
  have r1: "\<forall>i \<in> set [1]. i < length [[0], [1::nat]] \<and> i < length (obs_names example_adata) \<and>
                (\<forall>j \<in> set ([[0], [1]] ! i). j < length (obs_names example_adata))"
    by (simp add: example_names)
  have i1: "\<forall>i \<in> set [1]. i \<in> set ([[0], [1::nat]] ! i) \<longrightarrow> [[0], [1]] ! i = [i]"
    by simp
  have r2: "\<forall>i \<in> set [0, 1]. i < length [[0], [1::nat]] \<and> i < length (obs_names example_adata) \<and>
                (\<forall>j \<in> set ([[0], [1]] ! i). j < length (obs_names example_adata))"
    by (simp add: example_names)
  have i2: "\<forall>i \<in> set [0, 1]. i \<in> set ([[0], [1::nat]] ! i) \<longrightarrow> [[0], [1]] ! i = [i]"
    by simp
  have r3: "\<forall>i \<in> set [0]. i < length [[1], [0::nat]] \<and> i < length (obs_names example_adata) \<and>
                (\<forall>j \<in> set ([[1], [0]] ! i). j < length (obs_names example_adata))"
    by (simp add: example_names)
  have i3: "\<forall>i \<in> set [0]. i \<in> set ([[1], [0::nat]] ! i) \<longrightarrow> [[1], [0]] ! i = [i]"
    by simp
  have f: "get_frame example_adata (Some (snd (label_keys ''cell_type''))) =
     Inr \<lparr>df_index = [''A'', ''B''], df_columns = [''T''], df_values = [[1 / 10], [1 / 2]]\<rparr>"
    using example_frame by (simp add: k)
  have q1: "filter (\<lambda>k. k \<in> set [1] \<and> [True, True] ! k) [0 ..< length [True, True]] = [1]"
    by (simp add: upt_rec)
  have q2: "filter (\<lambda>k. k \<in> set [0, 1] \<and> [True, True] ! k) [0 ..< length [True, True]] = [0, 1]"
    by (simp add: upt_rec)
  have ne1: "[1::nat] \<noteq> []" and ne2: "[0, 1::nat] \<noteq> []" and ne3: "[0::nat] \<noteq> []"
    by simp_all
  have p1: "length (rows \<lparr>ncols = 1, rows = [[1 / 10], [1 / 2]]\<rparr>) = length [True, True]"
    by simp
  have p2: "\<And>i. i \<in> set [1] \<Longrightarrow> i < length [True, True]"
    by simp
  have p2': "\<And>i. i \<in> set [0, 1] \<Longrightarrow> i < length [True, True]"
    by auto
  have p3: "length [True, True] \<le> length (obs_names example_adata)"
    by (simp add: example_names)
  note t1 = count_core_mixture_paths[OF ne1 u l n r1 i1, of "1 / 5" True]
  note t2 = count_core_mixture_paths[OF ne2 u l n r2 i2, of "1 / 5" False]
  note t3 = count_core_mixture_paths[OF ne3 u l n r3 i3, of "1 / 5" True]
  have w1: "within_spot_edges example_adata (snd (label_keys ''cell_type'')) [1] [True, True]
      [''T''] (1 / 5) = Inr [SpotItem ''A'']"
  proof -
    have e: "filter (\<lambda>i. \<exists>v \<in> set (rows \<lparr>ncols = 1, rows = [[1 / 10], [1 / 2]]\<rparr> ! ([1] ! i)).
                 1 / 5 < v) [0 ..< length [1::nat]] = [0]"
      by code_simp
    have "within_spot_edges example_adata (snd (label_keys ''cell_type'')) [1] [True, True]
        [''T''] (1 / 5) = Inr (map (\<lambda>i. SpotItem (obs_names example_adata ! i)) [0])"
      using t1[THEN conjunct2, rule_format, OF f example_columns p1 p2 p3 q1[symmetric],
          THEN conjunct1]
      unfolding e by (simp add: example_names)
    then show ?thesis by (simp add: example_names)
  qed
  have w2: "within_spot_edges example_adata (snd (label_keys ''cell_type'')) [0, 1] [True, True]
      [''T''] (1 / 5) = Inr [SpotItem ''B'']"
  proof -
    have e: "filter (\<lambda>i. \<exists>v \<in> set (rows \<lparr>ncols = 1, rows = [[1 / 10], [1 / 2]]\<rparr> ! ([0, 1] ! i)).
                 1 / 5 < v) [0 ..< length [0, 1::nat]] = [1]"
      by code_simp
    have "within_spot_edges example_adata (snd (label_keys ''cell_type'')) [0, 1] [True, True]
        [''T''] (1 / 5) = Inr (map (\<lambda>i. SpotItem (obs_names example_adata ! i)) [1])"
      using t2[THEN conjunct2, rule_format, OF f example_columns p1 p2' p3 q2[symmetric],
          THEN conjunct1]
      unfolding e by (simp add: example_names)
    then show ?thesis by (simp add: example_names)
  qed
  have a1: "count_core example_adata ''cell_type'' [[0], [1]] (Some [1]) (Some [True, True])
     (Some [''T'']) True (1 / 5) True = Inr (Edges [SpotItem ''A''])"
    using t1[THEN conjunct1] w1 by (simp add: bindE_def)
  have a2: "count_core example_adata ''cell_type'' [[0], [1]] (Some [0, 1]) (Some [True, True])
     (Some [''T'']) True (1 / 5) False = Inr (Count 1)"
    using t2[THEN conjunct1] w2 by (simp add: bindE_def)
  have a3: "count_core example_adata ''cell_type'' [[1], [0]] (Some [0]) (Some [True, True])
     (Some [''T'']) True (1 / 5) True = Inr (Edges [PairItem (''A'', ''B'')])"
    using t3[THEN conjunct1] f example_columns example_between
    by (simp add: example_names bindE_def)
  from a1 a2 a3 show ?thesis by simp
qed

section \<open>Properties of run and run\_cci\<close>

subsection \<open>The filter on the number of spots\<close>

text \<open>
  Claim C4, at an input where the code departs from it. One spot, one LR pair with score 1
  there, and \<open>min_spots = 1\<close>: the pair has one spot with a nonzero score, which is not
  below \<open>min_spots\<close>, and lines 72 to 74 remove it all the same, since they keep a pair only
  when its count is strictly above \<open>min_spots\<close>.
\<close>

theorem filter_lrs_at_min_spots:
  "sum_bool (map (\<lambda>row. row ! 0 \<noteq> 0) (rows \<lparr>ncols = 1, rows = [[1]]\<rparr>)) = 1 \<and>
   \<not> (int (sum_bool (map (\<lambda>row. row ! 0 \<noteq> 0) (rows \<lparr>ncols = 1, rows = [[1]]\<rparr>))) < 1) \<and>
   filter_lrs \<lparr>ncols = 1, rows = [[1]]\<rparr> [''L_R''] 1 = Inr ([], \<lparr>ncols = 0, rows = [[]]\<rparr>)"
  by (simp add: filter_lrs_def lr_bool_def sum_bool_def bool_index_def bindE_def)

subsection \<open>No valid LR pair\<close>

lemma str_of_nat_0: "str_of_nat 0 = ''0''"
  by code_simp

lemma str_of_nat_1: "str_of_nat (Suc 0) = ''1''"
  by code_simp

lemma count_obsm:
  "count adata use_label use_het verbose distance = Inr (adata', msgs) \<Longrightarrow>
   \<exists>cs. adata' = adata\<lparr>obsm := (obsm adata)(use_het \<mapsto> HetCounts cs)\<rparr>"
  by (auto simp: count_def count_between_def count_within_def bindE_def
      split: sum.splits prod.splits if_splits)

lemma cell_het_obsm:
  "(case use_label of None \<Rightarrow> False | Some l \<Rightarrow> uns (adata\<lparr>obsm := m\<rparr>) l \<noteq> None)
     = (case use_label of None \<Rightarrow> False | Some l \<Rightarrow> uns adata l \<noteq> None)"
  by (cases use_label) simp_all

lemma run_setup_effect:
  assumes "run_setup env adata use_label use_het distance verbose = Inr (adata2, out2, neighs, het_vals)"
  shows "\<exists>d df. calc_distance env adata distance = Inr d \<and>
    calc_neighbours env adata d verbose = Inr neighs \<and>
    spot_neighbours_frame (obs_names adata) neighs = Inr df \<and>
    ((case use_label of None \<Rightarrow> False | Some l \<Rightarrow> uns adata l \<noteq> None) \<longrightarrow>
       (\<exists>msgs cs.
          count (adata\<lparr>obsm := (obsm adata)(''spot_neighbours'' \<mapsto> StrFrame df)\<rparr>) use_label
            use_het True (Some d) = Inr (adata2, msgs) \<and>
          adata2 = adata\<lparr>obsm := (obsm adata)(''spot_neighbours'' \<mapsto> StrFrame df,
                                               use_het \<mapsto> HetCounts cs)\<rparr>)) \<and>
    (\<not> (case use_label of None \<Rightarrow> False | Some l \<Rightarrow> uns adata l \<noteq> None) \<longrightarrow>
       adata2 = adata\<lparr>obsm := (obsm adata)(''spot_neighbours'' \<mapsto> StrFrame df)\<rparr>)"
proof -
  from assms obtain d df where
    cd: "calc_distance env adata distance = Inr d" and
    cn: "calc_neighbours env adata d verbose = Inr neighs" and
    fr: "spot_neighbours_frame (obs_names adata) neighs = Inr df" and
    rest: "(if (case use_label of None \<Rightarrow> False | Some l \<Rightarrow> uns adata l \<noteq> None)
            then bindE (count (adata\<lparr>obsm := (obsm adata)(''spot_neighbours'' \<mapsto> StrFrame df)\<rparr>)
                          use_label use_het True (Some d))
                   (\<lambda>(adata2, msgs).
                      Inr (adata2,
                           (if verbose then [stored_message] else [])
                             @ (if verbose then [''Calculating cell hetereogeneity...'']
                                else []) @ msgs))
            else Inr (adata\<lparr>obsm := (obsm adata)(''spot_neighbours'' \<mapsto> StrFrame df)\<rparr>,
                      if verbose then [stored_message] else []))
       = Inr (adata2, out2)"
    unfolding run_setup_def Let_def bindE_Inr_iff cell_het_obsm
    by (auto split: prod.splits)
  let ?a1 = "adata\<lparr>obsm := (obsm adata)(''spot_neighbours'' \<mapsto> StrFrame df)\<rparr>"
  let ?h = "case use_label of None \<Rightarrow> False | Some l \<Rightarrow> uns adata l \<noteq> None"
  have yes: "\<exists>msgs cs. count ?a1 use_label use_het True (Some d) = Inr (adata2, msgs) \<and>
          adata2 = adata\<lparr>obsm := (obsm adata)(''spot_neighbours'' \<mapsto> StrFrame df,
                                               use_het \<mapsto> HetCounts cs)\<rparr>" if h: "?h"
  proof -
    from rest h obtain msgs where
      c: "count ?a1 use_label use_het True (Some d) = Inr (adata2, msgs)"
      by (auto simp: bindE_Inr_iff)
    from count_obsm[OF c] obtain cs where
      "adata2 = ?a1\<lparr>obsm := (obsm ?a1)(use_het \<mapsto> HetCounts cs)\<rparr>" by blast
    then have "adata2 = adata\<lparr>obsm := (obsm adata)(''spot_neighbours'' \<mapsto> StrFrame df,
                                               use_het \<mapsto> HetCounts cs)\<rparr>" by simp
    with c show ?thesis by blast
  qed
  have no: "adata2 = ?a1" if "\<not> ?h"
    using rest that by simp
  from cd cn fr yes no show ?thesis by blast
qed

lemma run_setup_independent:
  "run_setup (env\<lparr>perform_spot_testing := pst\<rparr>) adata use_label use_het distance verbose
     = run_setup env adata use_label use_het distance verbose"
  by (simp add: run_setup_def)

text \<open>
  Claim C5, amended. When the neighbours have been stored and the scoring leaves no valid
  LR pair, \<open>run\<close> returns without an exception, its last printed line is the message that it
  exits for lack of valid LR pairs, and the permutation testing is not run (the result is the
  same whatever that function is). The unstructured annotations, where the LR results
  would go, are as before; the dataset itself is not: the neighbour indices are stored in
  \<open>obsm\<close>, and when a label is given whose data is present in \<open>uns\<close>, the heterogeneity
  counts computed by \<open>count\<close> are stored under \<open>use_het\<close> as well; without such label data
  the neighbour indices are the only change.
\<close>

theorem run_no_valid_pairs:
  assumes prep: "run_setup env adata use_label use_het distance verbose
        = Inr (adata2, out2, neighs, het_vals)"
    and scores: "get_lrs_scores env adata2 lrs neighs het_vals min_expr = Inr (lr_scores, lrs1)"
    and none: "filter_lrs lr_scores lrs1 min_spots = Inr ([], lr_scores2)"
  shows "run env adata lrs use_label use_het distance n_pairs adj_method pval_adj_cutoff
           min_spots min_expr save_bg verbose
         = Inr (adata2, out2 @ (if verbose then [''Altogether 0 valid L-R pairs''] else [])
                          @ [''Exiting due to lack of valid LR pairs.'']) \<and>
    run (env\<lparr>perform_spot_testing := pst\<rparr>) adata lrs use_label use_het distance n_pairs
           adj_method pval_adj_cutoff min_spots min_expr save_bg verbose
         = run env adata lrs use_label use_het distance n_pairs adj_method pval_adj_cutoff
             min_spots min_expr save_bg verbose \<and>
    uns adata2 = uns adata \<and>
    (\<exists>d df. calc_distance env adata distance = Inr d \<and>
       calc_neighbours env adata d verbose = Inr neighs \<and>
       spot_neighbours_frame (obs_names adata) neighs = Inr df \<and>
       ((case use_label of None \<Rightarrow> False | Some l \<Rightarrow> uns adata l \<noteq> None) \<longrightarrow>
          (\<exists>msgs cs.
             count (adata\<lparr>obsm := (obsm adata)(''spot_neighbours'' \<mapsto> StrFrame df)\<rparr>)
               use_label use_het True (Some d) = Inr (adata2, msgs) \<and>
             adata2 = adata\<lparr>obsm := (obsm adata)(''spot_neighbours'' \<mapsto> StrFrame df,
                                                  use_het \<mapsto> HetCounts cs)\<rparr>)) \<and>
       (\<not> (case use_label of None \<Rightarrow> False | Some l \<Rightarrow> uns adata l \<noteq> None) \<longrightarrow>
          adata2 = adata\<lparr>obsm := (obsm adata)(''spot_neighbours'' \<mapsto> StrFrame df)\<rparr>))"
proof -
  have r: "run env adata lrs use_label use_het distance n_pairs adj_method pval_adj_cutoff
           min_spots min_expr save_bg verbose
         = Inr (adata2, out2 @ (if verbose then [''Altogether 0 valid L-R pairs''] else [])
                          @ [''Exiting due to lack of valid LR pairs.''])"
    by (simp add: run_def prep scores none bindE_def str_of_nat_0)
  have r': "run (env\<lparr>perform_spot_testing := pst\<rparr>) adata lrs use_label use_het distance n_pairs
           adj_method pval_adj_cutoff min_spots min_expr save_bg verbose
         = Inr (adata2, out2 @ (if verbose then [''Altogether 0 valid L-R pairs''] else [])
                          @ [''Exiting due to lack of valid LR pairs.''])"
    by (simp add: run_def run_setup_independent prep scores none bindE_def str_of_nat_0)
  note e = run_setup_effect[OF prep]
  from e have u: "uns adata2 = uns adata"
    by (cases "case use_label of None \<Rightarrow> False | Some l \<Rightarrow> uns adata l \<noteq> None") auto
  from r r' u e show ?thesis by simp
qed

text \<open>On the small dataset the aborted run leaves the neighbour indices behind, in a slot
  that was empty before the call.\<close>

lemma run_setup_example:
  "run_setup example_env example_adata None ''cci_het'' None True =
     Inr (example_adata\<lparr>obsm := [''spot_neighbours'' \<mapsto>
             StrFrame \<lparr>df_index = [''A'', ''B''], df_columns = [''neighbour_indices''],
                       df_values = [[''1''], [''0'']]\<rparr>]\<rparr>,
          [stored_message], [[1], [0]], HetCounts [1, 1])"
  by (simp add: run_setup_def example_env_def bindE_def spot_neighbours_frame_def
      str_of_nat_0 str_of_nat_1 example_adata_def numeral_2_eq_2)

theorem run_modifies_dataset_counterexample:
  "run example_env example_adata [''L_R''] None ''cci_het'' None 1000 ''fdr_bh'' (5 / 100) 10 0
       False True =
     Inr (example_adata\<lparr>obsm := [''spot_neighbours'' \<mapsto>
             StrFrame \<lparr>df_index = [''A'', ''B''], df_columns = [''neighbour_indices''],
                       df_values = [[''1''], [''0'']]\<rparr>]\<rparr>,
          [stored_message, ''Altogether 0 valid L-R pairs'',
           ''Exiting due to lack of valid LR pairs.'']) \<and>
   obsm example_adata ''spot_neighbours'' = None \<and>
   example_adata\<lparr>obsm := [''spot_neighbours'' \<mapsto>
             StrFrame \<lparr>df_index = [''A'', ''B''], df_columns = [''neighbour_indices''],
                       df_values = [[''1''], [''0'']]\<rparr>]\<rparr> \<noteq> example_adata"
proof -
  have ne: "obsm example_adata ''spot_neighbours'' = None"
    by (simp add: example_adata_def)
  have fl: "filter_lrs \<lparr>ncols = Suc 0, rows = [[0], [0]]\<rparr> [''L_R''] 10 = Inr ([], \<lparr>ncols = 0, rows = [[], []]\<rparr>)"
    by (simp add: filter_lrs_def lr_bool_def sum_bool_def bool_index_def bindE_def)
  have "run example_env example_adata [''L_R''] None ''cci_het'' None 1000 ''fdr_bh'' (5 / 100) 10 0
       False True =
     Inr (example_adata\<lparr>obsm := [''spot_neighbours'' \<mapsto>
             StrFrame \<lparr>df_index = [''A'', ''B''], df_columns = [''neighbour_indices''],
                       df_values = [[''1''], [''0'']]\<rparr>]\<rparr>,
          [stored_message, ''Altogether 0 valid L-R pairs'',
           ''Exiting due to lack of valid LR pairs.''])"
    by (simp add: run_def run_setup_example bindE_def str_of_nat_0)
       (simp add: example_env_def fl numeral_2_eq_2 bindE_def str_of_nat_0)
  moreover have "example_adata\<lparr>obsm := [''spot_neighbours'' \<mapsto>
             StrFrame \<lparr>df_index = [''A'', ''B''], df_columns = [''neighbour_indices''],
                       df_values = [[''1''], [''0'']]\<rparr>]\<rparr> \<noteq> example_adata"
  proof
    assume "example_adata\<lparr>obsm := [''spot_neighbours'' \<mapsto>
             StrFrame \<lparr>df_index = [''A'', ''B''], df_columns = [''neighbour_indices''],
                       df_values = [[''1''], [''0'']]\<rparr>]\<rparr> = example_adata"
    then have "obsm (example_adata\<lparr>obsm := [''spot_neighbours'' \<mapsto>
             StrFrame \<lparr>df_index = [''A'', ''B''], df_columns = [''neighbour_indices''],
                       df_values = [[''1''], [''0'']]\<rparr>]\<rparr>) ''spot_neighbours''
        = obsm example_adata ''spot_neighbours''" by simp
    with ne show False by simp
  qed
  ultimately show ?thesis using ne by simp
qed

lemma example_count_stored:
  "count (example_adata\<lparr>obsm := m\<rparr>) (Some ''cell_type'') ''cci_het'' True (Some 1) =
     Inr (example_adata\<lparr>obsm := m(''cci_het'' \<mapsto> HetCounts [1, 1])\<rparr>,
          [count_message ''cci_het''])"
proof -
  have l: "first_library (example_adata\<lparr>obsm := m\<rparr>) = first_library example_adata"
    by (simp add: first_library_def)
  have c: "coor (example_adata\<lparr>obsm := m\<rparr>) = coor example_adata"
    by (simp add: coor_def)
  have f: "get_frame (example_adata\<lparr>obsm := m\<rparr>) (Some ''cell_type'')
      = get_frame example_adata (Some ''cell_type'')"
    by (simp add: get_frame_def)
  show ?thesis
    by (simp add: count_def l example_library count_distance_def count_between_def c
        example_coor example_names count_neighbours_def example_query_1 f example_frame
        example_cell_types_AB bindE_def)
qed

lemma run_setup_example_labelled:
  "run_setup example_env example_adata (Some ''cell_type'') ''cci_het'' None False =
     Inr (example_adata\<lparr>obsm := [''spot_neighbours'' \<mapsto>
             StrFrame \<lparr>df_index = [''A'', ''B''], df_columns = [''neighbour_indices''],
                       df_values = [[''1''], [''0'']]\<rparr>,
             ''cci_het'' \<mapsto> HetCounts [1, 1]]\<rparr>,
          [count_message ''cci_het''], [[1], [0]], HetCounts [1, 1])"
proof -
  have u: "uns example_adata ''cell_type'' \<noteq> None" by (simp add: example_adata_def)
  have o: "obsm example_adata = Map.empty" by (simp add: example_adata_def)
  show ?thesis
    using u
    by (simp add: run_setup_def example_env_def bindE_def spot_neighbours_frame_def
        str_of_nat_0 str_of_nat_1 example_names example_count_stored o)
qed

theorem run_no_valid_pairs_witness:
  "run example_env example_adata [''L_R''] (Some ''cell_type'') ''cci_het'' None 1000 ''fdr_bh''
       (1 / 20) 10 0 False False =
     Inr (example_adata\<lparr>obsm := [''spot_neighbours'' \<mapsto>
             StrFrame \<lparr>df_index = [''A'', ''B''], df_columns = [''neighbour_indices''],
                       df_values = [[''1''], [''0'']]\<rparr>,
             ''cci_het'' \<mapsto> HetCounts [1, 1]]\<rparr>,
          [count_message ''cci_het'', ''Exiting due to lack of valid LR pairs.''])"
proof -
  have sc: "get_lrs_scores example_env
      (example_adata\<lparr>obsm := [''spot_neighbours'' \<mapsto>
             StrFrame \<lparr>df_index = [''A'', ''B''], df_columns = [''neighbour_indices''],
                       df_values = [[''1''], [''0'']]\<rparr>,
             ''cci_het'' \<mapsto> HetCounts [1, 1]]\<rparr>)
      [''L_R''] [[1], [0]] (HetCounts [1, 1]) 0
     = Inr (\<lparr>ncols = Suc 0, rows = [[0], [0]]\<rparr>, [''L_R''])"
    by (simp add: example_env_def numeral_2_eq_2)
  have fl: "filter_lrs \<lparr>ncols = Suc 0, rows = [[0], [0]]\<rparr> [''L_R''] 10
      = Inr ([], \<lparr>ncols = 0, rows = [[], []]\<rparr>)"
    by (simp add: filter_lrs_def lr_bool_def sum_bool_def bool_index_def bindE_def)
  from run_no_valid_pairs[OF run_setup_example_labelled sc fl, of 1000 "''fdr_bh''" "1 / 20" False,
      THEN conjunct1]
  show ?thesis by simp
qed

subsection \<open>The guard of run\_cci\<close>











subsection \<open>The aggregate matrices of run\_cci\<close>














end
